theory Spec2Isabelle
  imports Main "HOL-Library.Multiset" "HOL-Library.Sublist"
begin

section \<open>JavaScript values\<close>

text \<open>
  The values that travel through \<^verbatim>\<open>src/js/internal/child_process.ts\<close>: messages,
  options, callbacks and handles are all plain JavaScript values, and the code branches
  on \<^verbatim>\<open>typeof\<close>, on truthiness and on property reads.  An object with identity and
  mutable fields (a \<^verbatim>\<open>net.Socket\<close>, a \<^verbatim>\<open>net.Server\<close>, a \<^verbatim>\<open>dgram.Socket\<close>, a raw
  transport handle) is a reference \<open>JRef\<close> into the heap of the state; a message object
  is a value (its fields in order).  Numbers are modelled by integers: the code looks
  at their type and truthiness, and at their decimal form where one is used as a
  property key.
\<close>

datatype jsval =
    JUndefined
  | JNull
  | JBool bool
  | JNum int
  | JBigInt int
  | JStr string
  | JSymbol nat
  | JFunc nat
  | JObj "(string \<times> jsval) list"
  | JArr "jsval list"
  | JRef nat

fun typeof :: "jsval \<Rightarrow> string" where
  "typeof JUndefined = ''undefined''"
| "typeof JNull = ''object''"
| "typeof (JBool b) = ''boolean''"
| "typeof (JNum n) = ''number''"
| "typeof (JBigInt n) = ''bigint''"
| "typeof (JStr s) = ''string''"
| "typeof (JSymbol n) = ''symbol''"
| "typeof (JFunc f) = ''function''"
| "typeof (JObj fs) = ''object''"
| "typeof (JArr xs) = ''object''"
| "typeof (JRef r) = ''object''"

fun truthy :: "jsval \<Rightarrow> bool" where
  "truthy JUndefined = False"
| "truthy JNull = False"
| "truthy (JBool b) = b"
| "truthy (JNum n) = (n \<noteq> 0)"
| "truthy (JBigInt n) = (n \<noteq> 0)"
| "truthy (JStr s) = (s \<noteq> [])"
| "truthy (JSymbol n) = True"
| "truthy (JFunc f) = True"
| "truthy (JObj fs) = True"
| "truthy (JArr xs) = True"
| "truthy (JRef r) = True"

definition nullish :: "jsval \<Rightarrow> bool" where
  "nullish v \<longleftrightarrow> v = JUndefined \<or> v = JNull"

text \<open>
  A property read \<^verbatim>\<open>v.k\<close>.  Only message objects carry the properties the code reads
  (\<^verbatim>\<open>cmd\<close>, \<^verbatim>\<open>type\<close>, \<^verbatim>\<open>msg\<close>, \<^verbatim>\<open>key\<close>, \<^verbatim>\<open>swallowErrors\<close>, \<^verbatim>\<open>keepOpen\<close>); on every
  other value the read gives \<^verbatim>\<open>undefined\<close>.  A read on \<^verbatim>\<open>undefined\<close> or \<^verbatim>\<open>null\<close>
  raises in JavaScript: the callers below test \<open>nullish\<close> first where the source can
  reach such a read.
\<close>

fun get_prop :: "jsval \<Rightarrow> string \<Rightarrow> jsval" where
  "get_prop (JObj fs) k = (case map_of fs k of Some v \<Rightarrow> v | None \<Rightarrow> JUndefined)"
| "get_prop v k = JUndefined"

fun set_field :: "string \<Rightarrow> jsval \<Rightarrow> (string \<times> jsval) list \<Rightarrow> (string \<times> jsval) list" where
  "set_field k v [] = [(k, v)]"
| "set_field k v (p # fs) = (if fst p = k then (k, v) # fs else p # set_field k v fs)"

fun set_prop :: "jsval \<Rightarrow> string \<Rightarrow> jsval \<Rightarrow> jsval" where
  "set_prop (JObj fs) k v = JObj (set_field k v fs)"
| "set_prop w k v = w"

text \<open>\<^verbatim>\<open>{ swallowErrors: false, ...options }\<close>: the own fields of \<open>options\<close> override.\<close>

fun spread_options :: "jsval \<Rightarrow> jsval" where
  "spread_options (JObj fs) =
     JObj (fold (\<lambda>p acc. set_field (fst p) (snd p) acc) fs [(''swallowErrors'', JBool False)])"
| "spread_options v = JObj [(''swallowErrors'', JBool False)]"

subsection \<open>Property keys\<close>

text \<open>
  A computed property read \<^verbatim>\<open>o[v]\<close> first turns \<open>v\<close> into a property key: a symbol is
  its own key, every other value is turned into a string.  Numbers print in decimal; an
  array prints its elements separated by commas, \<^verbatim>\<open>null\<close> and \<^verbatim>\<open>undefined\<close> among them
  as the empty string; objects are taken to have the \<^verbatim>\<open>toString\<close> of
  \<^verbatim>\<open>Object.prototype\<close>, which is what the deserialiser of the channel gives.
  Functions and symbols do not come off the channel: the model prints all functions
  alike, and a symbol inside an array as the empty string.
\<close>

datatype pkey = KString string | KSymbol nat

fun decimal :: "nat \<Rightarrow> string" where
  "decimal n = (if n < 10 then [char_of (48 + n)] else decimal (n div 10) @ [char_of (48 + n mod 10)])"

definition decimal_int :: "int \<Rightarrow> string" where
  "decimal_int i = (if i < 0 then CHR ''-'' # decimal (nat (- i)) else decimal (nat i))"

fun join :: "string list \<Rightarrow> string" where
  "join [] = []"
| "join [x] = x"
| "join (x # y # ys) = x @ CHR '','' # join (y # ys)"

fun to_string :: "jsval \<Rightarrow> string" where
  "to_string JUndefined = ''undefined''"
| "to_string JNull = ''null''"
| "to_string (JBool b) = (if b then ''true'' else ''false'')"
| "to_string (JNum n) = decimal_int n"
| "to_string (JBigInt n) = decimal_int n"
| "to_string (JStr s) = s"
| "to_string (JSymbol n) = []"
| "to_string (JFunc f) = ''function''"
| "to_string (JObj fs) = ''[object Object]''"
| "to_string (JArr xs) = join (map (\<lambda>x. if x = JUndefined \<or> x = JNull then [] else to_string x) xs)"
| "to_string (JRef r) = ''[object Object]''"

definition property_key :: "jsval \<Rightarrow> pkey" where
  "property_key v = (case v of JSymbol n \<Rightarrow> KSymbol n | _ \<Rightarrow> KString (to_string v))"

text \<open>
  The property names that every plain object (\<^verbatim>\<open>{}\<close>) inherits from
  \<^verbatim>\<open>Object.prototype\<close>.  A read of one of them on an object that has no such property
  of its own gives the inherited value, which is truthy (a function, or for
  \<^verbatim>\<open>__proto__\<close> the prototype itself) and has none of the properties that the code
  goes on to read.
\<close>

definition Object_prototype_keys :: "string list" where
  "Object_prototype_keys =
     [''constructor'', ''__defineGetter__'', ''__defineSetter__'', ''hasOwnProperty'',
      ''__lookupGetter__'', ''__lookupSetter__'', ''isPrototypeOf'', ''propertyIsEnumerable'',
      ''toString'', ''valueOf'', ''__proto__'', ''toLocaleString'']"

definition inherited :: "pkey \<Rightarrow> bool" where
  "inherited k = (case k of KString n \<Rightarrow> n \<in> set Object_prototype_keys | KSymbol n \<Rightarrow> False)"

subsection \<open>Errors\<close>

datatype error =
    ERR_IPC_CHANNEL_CLOSED
  | ERR_INVALID_HANDLE_TYPE
  | ERR_IPC_DISCONNECTED
  | ERR_MISSING_ARGS string
  | ERR_INVALID_ARG_TYPE string string jsval
  | ErrnoException int string
  | TypeError
  | AssertionError

datatype 'a outcome = Returned 'a | Threw error

text \<open>\<^verbatim>\<open>validateObject(value, name)\<close> with no third argument: all three allowances are false.\<close>

definition validateObject :: "jsval \<Rightarrow> string \<Rightarrow> error option" where
  "validateObject v name =
     (if v = JNull \<or> (case v of JArr xs \<Rightarrow> True | _ \<Rightarrow> False) \<or> typeof v \<noteq> ''object''
      then Some (ERR_INVALID_ARG_TYPE name ''object'' v) else None)"

subsection \<open>Classification of inbound envelopes\<close>

definition INTERNAL_PREFIX :: string where
  "INTERNAL_PREFIX = ''NODE_''"

definition isInternal :: "jsval \<Rightarrow> bool" where
  "isInternal message \<longleftrightarrow>
     message \<noteq> JNull \<and>
     typeof message = ''object'' \<and>
     typeof (get_prop message ''cmd'') = ''string'' \<and>
     (case get_prop message ''cmd'' of
        JStr c \<Rightarrow> length c > length INTERNAL_PREFIX \<and> take (length INTERNAL_PREFIX) c = INTERNAL_PREFIX
      | _ \<Rightarrow> False)"

section \<open>The state of one channel and its target\<close>

text \<open>
  Objects with identity.  \<open>raw_handle\<close> is \<^verbatim>\<open>socket._handle\<close>, \<^verbatim>\<open>server._handle\<close> or
  \<^verbatim>\<open>socket[kStateSymbol].handle\<close> (a reference to the raw transport handle, or null);
  \<open>server\<close> is \<^verbatim>\<open>socket.server\<close>; \<open>connectionKey\<close> and \<open>connections\<close> are
  \<^verbatim>\<open>server._connectionKey\<close> and \<^verbatim>\<open>server._connections\<close>; \<open>dgram_type\<close> is
  \<^verbatim>\<open>socket.type\<close>.  A raw handle (what the source's commented-out branches call
  \<^verbatim>\<open>TCP\<close>, \<^verbatim>\<open>Pipe\<close>, \<^verbatim>\<open>UDP\<close>) has class \<open>NativeHandle\<close>; \<open>OtherObject\<close> is any other
  object.
\<close>

datatype hclass = NetSocket | NetServer | DgramSocket | NativeHandle | OtherObject

record hobj =
  hclass :: hclass
  raw_handle :: "nat option"
  server :: "nat option"
  connectionKey :: string
  connections :: int
  dgram_type :: jsval
  onread_nop :: bool

text \<open>An entry of \<^verbatim>\<open>target._handleQueue\<close> and the value of \<^verbatim>\<open>target._pendingMessage\<close>.\<close>

record queued =
  q_callback :: jsval
  q_handle :: jsval
  q_options :: jsval
  q_message :: jsval

record pending =
  p_callback :: jsval
  p_message :: jsval
  p_handle :: jsval
  p_options :: jsval
  retransmissions :: nat

text \<open>
  What \<^verbatim>\<open>writeChannelMessage\<close> reports for one write: its return code, the flag
  \<^verbatim>\<open>streamBaseState[kLastWriteWasAsync]\<close>, and \<^verbatim>\<open>channel.writeQueueSize\<close> read after it.
  The transport is outside the source: the state holds it as a function of the number
  of writes made so far.
\<close>

record wres =
  w_err :: int
  w_async :: bool
  w_queue :: nat

text \<open>Callbacks handed to \<^verbatim>\<open>process.nextTick\<close>.\<close>

datatype task =
    TCallback jsval "error option"
  | TEmitError error
  | TEmit string jsval jsval
  | TFlush
  | TFinish nat

text \<open>
  The trace of what the code does to its collaborators, in program order: writes to the
  channel, events emitted on the target, calls on handles, on the channel and on the
  socket registry.
\<close>

datatype effect =
    Write jsval jsval int
  | Emit string jsval jsval
  | EmitError error
  | EmitDisconnect
  | EmitClose
  | EmitWarning string string
  | HandleClose jsval
  | ChannelClose
  | ChannelRef
  | ChannelUnref
  | ControlEmitUnref
  | Callback jsval "error option"
  | SetSimultaneousAccepts jsval bool
  | SetupWorker nat string
  | SocketListAdd jsval nat
  | SetTimeout nat
  | Listen nat jsval
  | Bind nat jsval

text \<open>
  The fields of the target (\<open>connected\<close>, \<open>channel\<close>: whether \<^verbatim>\<open>target.channel\<close> is the
  control object or null, \<open>kChannelHandle\<close> likewise, \<open>handleQueue\<close>, \<open>pendingMessage\<close>),
  of the control object (\<open>kPendingMessages\<close>, \<open>refs\<close>, \<open>refExplicitlySet\<close>), of the
  channel (\<open>channel_refed\<close>: the effect of its \<^verbatim>\<open>ref\<close>/\<^verbatim>\<open>unref\<close>, \<open>buffering\<close>,
  \<open>channel_onread_nop\<close>, the own keys of the objects \<^verbatim>\<open>channel.sockets.send\<close> and
  \<^verbatim>\<open>.got\<close>), the closure variable \<open>pendingHandle\<close> of \<^verbatim>\<open>setupChannel\<close>, the listeners of
  the target that decide what the code does (\<open>message_listeners\<close> and \<open>error_listeners\<close>:
  how many listeners the user has for \<^verbatim>\<open>"message"\<close> and for \<^verbatim>\<open>"error"\<close>; \<open>once_message\<close>
  and \<open>once_internalMessage\<close>: the \<^verbatim>\<open>finish\<close> closures registered with \<^verbatim>\<open>once\<close>, each with
  its own \<^verbatim>\<open>fired\<close> flag), the \<^verbatim>\<open>process.nextTick\<close> queue, the writes in flight, the heap,
  the reconstructions waiting for \<^verbatim>\<open>listen\<close>/\<^verbatim>\<open>bind\<close>, the platform, and whether
  \<^verbatim>\<open>$assert\<close> is compiled in.
\<close>

record target =
  connected :: bool
  channel :: bool
  kChannelHandle :: bool
  handleQueue :: "queued list option"
  pendingMessage :: "pending option"
  kPendingMessages :: "(string \<times> jsval \<times> jsval) list"
  refs :: int
  refExplicitlySet :: bool
  channel_refed :: bool
  buffering :: bool
  channel_onread_nop :: bool
  sockets_send :: "pkey list"
  sockets_got :: "pkey list"
  pendingHandle :: jsval
  message_listeners :: nat
  error_listeners :: nat
  once_message :: "nat list"
  once_internalMessage :: "nat list"
  fired :: "nat list"
  next_finish :: nat
  closesGot :: int
  closesNeeded :: int
  ticks :: "task list"
  inflight :: "jsval list"
  heap :: "nat \<Rightarrow> hobj"
  next_ref :: nat
  pending_got :: "(jsval \<times> nat) list"
  transport :: "nat \<Rightarrow> wres"
  writes :: nat
  win32 :: bool
  assertions :: bool
  trace :: "effect list"

definition MAX_HANDLE_RETRANSMISSIONS :: nat where
  "MAX_HANDLE_RETRANSMISSIONS = 3"

definition effect :: "effect \<Rightarrow> target \<Rightarrow> target" where
  "effect e s = s\<lparr>trace := trace s @ [e]\<rparr>"

definition nextTick :: "task \<Rightarrow> target \<Rightarrow> target" where
  "nextTick t s = s\<lparr>ticks := ticks s @ [t]\<rparr>"

text \<open>
  \<^verbatim>\<open>ArrayPrototypePush\<close> is \<^verbatim>\<open>Array.prototype.push\<close> itself (line 25 of the source).  Called
  as \<^verbatim>\<open>ArrayPrototypePush.$apply(xs, [x])\<close> it runs with the receiver \<open>xs\<close> and appends
  \<open>x\<close>; called as \<^verbatim>\<open>ArrayPrototypePush(xs, x)\<close> it runs with no receiver, and the
  conversion of \<^verbatim>\<open>undefined\<close> to an object throws before anything is appended.
\<close>

definition ArrayPrototypePush :: "'a list option \<Rightarrow> 'a list \<Rightarrow> 'a list outcome" where
  "ArrayPrototypePush receiver items =
     (case receiver of None \<Rightarrow> Threw TypeError | Some xs \<Rightarrow> Returned (xs @ items))"

text \<open>
  \<^verbatim>\<open>target.emit("error", e)\<close>.  The target is an \<^verbatim>\<open>EventEmitter\<close>: with no listener for
  \<^verbatim>\<open>"error"\<close> the call throws \<open>e\<close>; otherwise the listeners get it.
\<close>

definition emit_error :: "target \<Rightarrow> error \<Rightarrow> unit outcome \<times> target" where
  "emit_error s e =
     (if error_listeners s = 0 then (Threw e, s) else (Returned (), effect (EmitError e) s))"

subsection \<open>class Control\<close>

definition refCounted :: "target \<Rightarrow> target" where
  "refCounted s =
     (let s1 = s\<lparr>refs := refs s + 1\<rparr> in
      if refs s1 = 1 \<and> \<not> refExplicitlySet s1
      then effect ChannelRef (s1\<lparr>channel_refed := True\<rparr>) else s1)"

definition unrefCounted :: "target \<Rightarrow> target" where
  "unrefCounted s =
     (let s1 = s\<lparr>refs := refs s - 1\<rparr> in
      if refs s1 = 0 \<and> \<not> refExplicitlySet s1
      then effect ControlEmitUnref (effect ChannelUnref (s1\<lparr>channel_refed := False\<rparr>)) else s1)"

definition ref :: "target \<Rightarrow> target" where
  "ref s = effect ChannelRef (s\<lparr>refExplicitlySet := True, channel_refed := True\<rparr>)"

definition unref :: "target \<Rightarrow> target" where
  "unref s = effect ChannelUnref (s\<lparr>refExplicitlySet := True, channel_refed := False\<rparr>)"

section \<open>Sending\<close>

text \<open>
  \<^verbatim>\<open>closePendingHandle(target)\<close>.  Its three call sites test
  \<^verbatim>\<open>target._pendingMessage\<close> first, so the first case is never taken.
\<close>

definition closePendingHandle :: "target \<Rightarrow> target" where
  "closePendingHandle s =
     (case pendingMessage s of
        None \<Rightarrow> s
      | Some p \<Rightarrow> effect (HandleClose (p_handle p)) (s\<lparr>pendingMessage := None\<rparr>))"

text \<open>\<^verbatim>\<open>handle instanceof C\<close>.\<close>

definition instance_of :: "target \<Rightarrow> jsval \<Rightarrow> hclass \<Rightarrow> bool" where
  "instance_of s h c = (case h of JRef r \<Rightarrow> hclass (heap s r) = c | _ \<Rightarrow> False)"

definition raw_of :: "hobj \<Rightarrow> jsval" where
  "raw_of ob = (case raw_handle ob of Some r \<Rightarrow> JRef r | None \<Rightarrow> JNull)"

subsection \<open>handleConversion: the send side\<close>

text \<open>
  Each strategy gets the envelope, the wrapper object and the options, and returns the
  envelope as it has changed it together with the raw handle.
\<close>

definition net_Server_send :: "target \<Rightarrow> jsval \<Rightarrow> nat \<Rightarrow> jsval \<Rightarrow> (jsval \<times> jsval) outcome \<times> target" where
  "net_Server_send s message srv options = (Returned (message, raw_of (heap s srv)), s)"

definition dgram_Socket_send :: "target \<Rightarrow> jsval \<Rightarrow> nat \<Rightarrow> jsval \<Rightarrow> (jsval \<times> jsval) outcome \<times> target" where
  "dgram_Socket_send s message sock options =
     (Returned (set_prop message ''dgramType'' (dgram_type (heap s sock)), raw_of (heap s sock)), s)"

text \<open>
  The part of \<^verbatim>\<open>"net.Socket".send\<close> under \<^verbatim>\<open>if (socket.server)\<close>.  \<^verbatim>\<open>getSocketList\<close>
  makes a new list under the key when the read \<^verbatim>\<open>sockets[key]\<close> gives nothing, which is
  when \<^verbatim>\<open>firstTime\<close> holds: the key is neither a property of \<^verbatim>\<open>sockets.send\<close> nor
  inherited.
\<close>

definition track_socket :: "target \<Rightarrow> jsval \<Rightarrow> nat \<Rightarrow> jsval \<Rightarrow> jsval outcome \<times> target" where
  "track_socket s message srv options =
     (let key = connectionKey (heap s srv);
          message1 = set_prop message ''key'' (JStr key)
      in if \<not> kChannelHandle s then (Threw TypeError, s)
         else
           (let firstTime = \<not> (KString key \<in> set (sockets_send s) \<or> inherited (KString key));
                s1 = (if firstTime then s\<lparr>sockets_send := sockets_send s @ [KString key]\<rparr> else s);
                s2 = (if firstTime then effect (SetupWorker srv key) s1 else s1)
            in if nullish options then (Threw TypeError, s2)
               else if \<not> truthy (get_prop options ''keepOpen'')
               then (Returned message1,
                     s2\<lparr>heap := (heap s2)(srv := (heap s2 srv)\<lparr>connections := connections (heap s2 srv) - 1\<rparr>)\<rparr>)
               else (Returned message1, s2)))"

definition net_Socket_send :: "target \<Rightarrow> jsval \<Rightarrow> nat \<Rightarrow> jsval \<Rightarrow> (jsval \<times> jsval) outcome \<times> target" where
  "net_Socket_send s message sock options =
     (case raw_handle (heap s sock) of
        None \<Rightarrow> (Returned (message, JUndefined), s)
      | Some h \<Rightarrow>
          (case (case server (heap s sock) of
                   None \<Rightarrow> (Returned message, s)
                 | Some srv \<Rightarrow> track_socket s message srv options) of
             (Threw e, s1) \<Rightarrow> (Threw e, s1)
           | (Returned message1, s1) \<Rightarrow>
               if nullish options then (Threw TypeError, s1)
               else if \<not> truthy (get_prop options ''keepOpen'')
               then (Returned (message1, JRef h),
                     effect (SetTimeout sock)
                       (s1\<lparr>heap := ((heap s1)(h := (heap s1 h)\<lparr>onread_nop := True\<rparr>))
                                      (sock := (((heap s1)(h := (heap s1 h)\<lparr>onread_nop := True\<rparr>)) sock)
                                                 \<lparr>raw_handle := None\<rparr>)\<rparr>))
               else (Returned (message1, JRef h), s1)))"

definition convert_send :: "target \<Rightarrow> string \<Rightarrow> jsval \<Rightarrow> jsval \<Rightarrow> jsval \<Rightarrow> (jsval \<times> jsval) outcome \<times> target" where
  "convert_send s ty message handle options =
     (case handle of
        JRef r \<Rightarrow>
          (if ty = ''net.Server'' then net_Server_send s message r options
           else if ty = ''net.Socket'' then net_Socket_send s message r options
           else dgram_Socket_send s message r options)
      | _ \<Rightarrow> (Returned (message, JUndefined), s))"

text \<open>
  \<^verbatim>\<open>"net.Socket".postSend(message, handle, options, callback, target)\<close>; the last
  argument says whether \<^verbatim>\<open>target\<close> was passed.  The other strategies have no
  \<^verbatim>\<open>postSend\<close>.
\<close>

definition postSend :: "target \<Rightarrow> jsval \<Rightarrow> jsval \<Rightarrow> jsval \<Rightarrow> jsval \<Rightarrow> bool \<Rightarrow> unit outcome \<times> target" where
  "postSend s message handle options callback with_target =
     (if \<not> truthy handle then (Returned (), s)
      else if nullish options then (Threw TypeError, s)
      else if truthy (get_prop options ''keepOpen'') then (Returned (), s)
      else if with_target then
        (if assertions s \<and> pendingMessage s \<noteq> None then (Threw AssertionError, s)
         else (Returned (),
               s\<lparr>pendingMessage := Some \<lparr>p_callback = callback, p_message = message, p_handle = handle,
                                          p_options = options, retransmissions = 0\<rparr>\<rparr>))
      else (Returned (), effect (HandleClose handle) s))"

subsection \<open>target._send\<close>

text \<open>
  The second half of \<^verbatim>\<open>_send\<close>, from \<^verbatim>\<open>const req = new WriteWrap()\<close> on.  \<open>obj\<close> is the
  type tag whose strategy the first half looked up, if it did.
\<close>

definition write_message :: "target \<Rightarrow> string option \<Rightarrow> jsval \<Rightarrow> jsval \<Rightarrow> jsval \<Rightarrow> jsval \<Rightarrow> jsval outcome \<times> target" where
  "write_message s obj message handle options callback =
     (let r = transport s (writes s);
          s1 = effect (Write message handle (w_err r)) (s\<lparr>writes := Suc (writes s)\<rparr>)
      in if w_err r = 0 then
           (case (if truthy handle then
                    (let s2 = (if handleQueue s1 = None then s1\<lparr>handleQueue := Some []\<rparr> else s1)
                     in if obj = Some ''net.Socket''
                        then postSend s2 message handle options callback True
                        else (Returned (), s2))
                  else (Returned (), s1)) of
              (Threw e, s3) \<Rightarrow> (Threw e, s3)
            | (Returned u, s3) \<Rightarrow>
                (Returned (JBool (w_queue r < 65536 * 2)),
                 (if w_async r then refCounted (s3\<lparr>inflight := inflight s3 @ [callback]\<rparr>)
                  else if typeof callback = ''function'' then nextTick (TCallback callback None) s3
                  else s3)))
         else
           (case (if obj = Some ''net.Socket''
                  then postSend s1 message handle options callback False
                  else (Returned (), s1)) of
              (Threw e, s2) \<Rightarrow> (Threw e, s2)
            | (Returned u, s2) \<Rightarrow>
                if nullish options then (Threw TypeError, s2)
                else
                  (Returned (JBool (w_queue r < 65536 * 2)),
                   (if \<not> truthy (get_prop options ''swallowErrors'') then
                      (if typeof callback = ''function''
                       then nextTick (TCallback callback (Some (ErrnoException (w_err r) ''write''))) s2
                       else nextTick (TEmitError (ErrnoException (w_err r) ''write'')) s2)
                    else s2))))"

definition is_handle_reply :: "jsval \<Rightarrow> bool" where
  "is_handle_reply message \<longleftrightarrow>
     truthy message \<and>
     (get_prop message ''cmd'' = JStr ''NODE_HANDLE_ACK'' \<or> get_prop message ''cmd'' = JStr ''NODE_HANDLE_NACK'')"

text \<open>
  The two places where \<^verbatim>\<open>_send\<close> queues a message:
  \<^verbatim>\<open>ArrayPrototypePush(this._handleQueue, {...}); return this._handleQueue.length === 1\<close>.
  The push is called with no receiver (the queue \<open>q\<close> and the entry \<open>a\<close> are its
  arguments), so it throws and the \<^verbatim>\<open>return\<close> is not reached.
\<close>

definition enqueue :: "target \<Rightarrow> queued list \<Rightarrow> queued \<Rightarrow> jsval outcome \<times> target" where
  "enqueue s q a =
     (case ArrayPrototypePush None [a] of
        Threw e \<Rightarrow> (Threw e, s)
      | Returned xs \<Rightarrow> (Returned (JBool (length q = 1)), s))"

text \<open>The legacy signature: \<^verbatim>\<open>if (typeof options === "boolean") options = { swallowErrors: options }\<close>.\<close>

definition legacy_options :: "jsval \<Rightarrow> jsval" where
  "legacy_options options = (if typeof options = ''boolean'' then JObj [(''swallowErrors'', options)] else options)"

text \<open>The chain of \<^verbatim>\<open>instanceof\<close> tests that gives \<^verbatim>\<open>message.type\<close>, or throws.\<close>

definition handle_tag :: "target \<Rightarrow> jsval \<Rightarrow> string option" where
  "handle_tag s handle =
     (if instance_of s handle NetSocket then Some ''net.Socket''
      else if instance_of s handle NetServer then Some ''net.Server''
      else if instance_of s handle DgramSocket then Some ''dgram.Socket''
      else None)"

definition envelope :: "string \<Rightarrow> jsval \<Rightarrow> jsval" where
  "envelope t message = JObj [(''cmd'', JStr ''NODE_HANDLE''), (''type'', JStr t), (''msg'', message)]"

definition internal_send :: "target \<Rightarrow> jsval \<Rightarrow> jsval \<Rightarrow> jsval \<Rightarrow> jsval \<Rightarrow> jsval outcome \<times> target" where
  "internal_send s message handle options0 callback =
     (if assertions s \<and> \<not> (connected s \<or> channel s) then (Threw AssertionError, s)
      else if message = JUndefined then (Threw (ERR_MISSING_ARGS ''message''), s)
      else if typeof message \<noteq> ''string'' \<and> typeof message \<noteq> ''object'' \<and>
              typeof message \<noteq> ''number'' \<and> typeof message \<noteq> ''boolean''
      then (Threw (ERR_INVALID_ARG_TYPE ''message'' ''string, object, number, or boolean'' message), s)
      else
        (let options = legacy_options options0
         in if truthy handle then
              (case handle_tag s handle of
                 None \<Rightarrow> (Threw ERR_INVALID_HANDLE_TYPE, s)
               | Some t \<Rightarrow>
                   (case handleQueue s of
                      Some q \<Rightarrow>
                        enqueue s q \<lparr>q_callback = callback, q_handle = handle, q_options = options,
                                     q_message = message\<rparr>
                    | None \<Rightarrow>
                        (case convert_send s t (envelope t message) handle options of
                           (Threw e, s1) \<Rightarrow> (Threw e, s1)
                         | (Returned (env, h), s1) \<Rightarrow>
                             (let message1 = (if \<not> truthy h then get_prop env ''msg'' else env)
                              in if t = ''net.Server'' \<and> win32 s1 then
                                   (if \<not> truthy h then (Threw TypeError, s1)
                                    else write_message (effect (SetSimultaneousAccepts h True) s1)
                                           (Some t) message1 h options callback)
                                 else write_message s1 (Some t) message1 h options callback))))
            else
              (case handleQueue s of
                 Some q \<Rightarrow>
                   if \<not> is_handle_reply message
                   then enqueue s q \<lparr>q_callback = callback, q_handle = JNull, q_options = options,
                                     q_message = message\<rparr>
                   else write_message s None message handle options callback
               | None \<Rightarrow> write_message s None message handle options callback)))"

text \<open>
  \<^verbatim>\<open>target.send\<close>: the argument shuffle, the validation of \<open>options\<close>, the defaults, and
  the \<open>connected\<close> gate.
\<close>

definition send :: "target \<Rightarrow> jsval \<Rightarrow> jsval \<Rightarrow> jsval \<Rightarrow> jsval \<Rightarrow> jsval outcome \<times> target" where
  "send s message handle0 options0 callback0 =
     (let handle = (if typeof handle0 = ''function'' then JUndefined else handle0);
          options = (if typeof handle0 = ''function'' \<or> typeof options0 = ''function''
                     then JUndefined else options0);
          callback = (if typeof handle0 = ''function'' then handle0
                      else if typeof options0 = ''function'' then options0 else callback0)
      in case (if typeof handle0 \<noteq> ''function'' \<and> typeof options0 \<noteq> ''function'' \<and>
                  options0 \<noteq> JUndefined
               then validateObject options0 ''options'' else None) of
           Some e \<Rightarrow> (Threw e, s)
         | None \<Rightarrow>
             if connected s then internal_send s message handle (spread_options options) callback
             else
               (Returned (JBool False),
                (if typeof callback = ''function''
                 then nextTick (TCallback callback (Some ERR_IPC_CHANNEL_CLOSED)) s
                 else nextTick (TEmitError ERR_IPC_CHANNEL_CLOSED) s)))"

section \<open>Disconnecting\<close>

text \<open>
  The closure \<^verbatim>\<open>finish\<close> of one call of \<^verbatim>\<open>_disconnect\<close>, numbered \<open>k\<close>; \<open>fired s\<close> lists
  the closures whose flag is set.
\<close>

definition finish :: "nat \<Rightarrow> target \<Rightarrow> target" where
  "finish k s =
     (if k \<in> set (fired s) then s
      else effect EmitDisconnect (effect ChannelClose (s\<lparr>fired := k # fired s\<rparr>)))"

text \<open>
  \<^verbatim>\<open>target._disconnect\<close>.  Each \<^verbatim>\<open>this.once(...)\<close> first runs the \<^verbatim>\<open>"newListener"\<close>
  handler of \<^verbatim>\<open>setupChannel\<close>, which schedules a flush.
\<close>

definition internal_disconnect :: "target \<Rightarrow> unit outcome \<times> target" where
  "internal_disconnect s =
     (if assertions s \<and> \<not> channel s then (Threw AssertionError, s)
      else
        (let s1 = s\<lparr>channel := False, kChannelHandle := False\<rparr>;
             s2 = (if pendingMessage s1 \<noteq> None then closePendingHandle s1 else s1);
             k = next_finish s2;
             s3 = s2\<lparr>next_finish := Suc k\<rparr>
         in if buffering s3
            then (Returned (),
                  nextTick TFlush
                    ((nextTick TFlush (s3\<lparr>once_message := once_message s3 @ [k]\<rparr>))
                       \<lparr>once_internalMessage := once_internalMessage s3 @ [k]\<rparr>))
            else (Returned (), nextTick (TFinish k) s3)))"

definition disconnect :: "target \<Rightarrow> unit outcome \<times> target" where
  "disconnect s =
     (if \<not> connected s then emit_error s ERR_IPC_DISCONNECTED
      else
        (let s1 = s\<lparr>connected := False\<rparr>
         in if handleQueue s1 = None then internal_disconnect s1 else (Returned (), s1)))"

section \<open>Receiving\<close>

definition handleMessage :: "target \<Rightarrow> jsval \<Rightarrow> jsval \<Rightarrow> bool \<Rightarrow> target" where
  "handleMessage s message handle internal =
     (if \<not> channel s then s
      else nextTick (TEmit (if internal then ''internalMessage'' else ''message'') message handle) s)"

subsection \<open>handleConversion: the receive side\<close>

definition new_object :: "hclass \<Rightarrow> jsval \<Rightarrow> jsval \<Rightarrow> hobj" where
  "new_object c handle ty =
     \<lparr>hclass = c, raw_handle = (case handle of JRef r \<Rightarrow> Some r | _ \<Rightarrow> None), server = None,
      connectionKey = [], connections = 0, dgram_type = ty, onread_nop = False\<rparr>"

text \<open>
  \<^verbatim>\<open>got(message, handle, emit)\<close> of the strategy for type \<open>ty\<close>, where \<^verbatim>\<open>emit\<close> is the
  closure \<^verbatim>\<open>handle => handleMessage(message.msg, handle, isInternal(message.msg))\<close>.  A
  server and a datagram socket call it when \<^verbatim>\<open>listen\<close>/\<^verbatim>\<open>bind\<close> completes
  (\<open>got_ready\<close> below); a socket calls it at once.  For a socket with a key,
  \<^verbatim>\<open>getSocketList\<close> reads \<^verbatim>\<open>sockets.got[key]\<close>: a list made earlier, or a new one, or for
  an inherited key a value with no \<^verbatim>\<open>add\<close>, on which the call throws.
\<close>

definition got :: "target \<Rightarrow> string \<Rightarrow> jsval \<Rightarrow> jsval \<Rightarrow> unit outcome \<times> target" where
  "got s ty message handle =
     (let n = next_ref s in
      if ty = ''net.Server'' then
        (Returned (),
         effect (Listen n handle)
           (s\<lparr>heap := (heap s)(n := new_object NetServer handle JUndefined), next_ref := Suc n,
              pending_got := pending_got s @ [(message, n)]\<rparr>))
      else if ty = ''net.Socket'' then
        (let s1 = s\<lparr>heap := (heap s)(n := new_object NetSocket handle JUndefined), next_ref := Suc n\<rparr>
         in if truthy (get_prop message ''key'') then
              (if \<not> kChannelHandle s1 then (Threw TypeError, s1)
               else
                 (let key = get_prop message ''key'';
                      k = property_key key
                  in if k \<notin> set (sockets_got s1) \<and> inherited k then (Threw TypeError, s1)
                     else
                       (let s2 = (if k \<in> set (sockets_got s1) then s1
                                  else s1\<lparr>sockets_got := sockets_got s1 @ [k]\<rparr>)
                        in (Returned (),
                            handleMessage (effect (SocketListAdd key n) s2) (get_prop message ''msg'')
                              (JRef n) (isInternal (get_prop message ''msg''))))))
            else (Returned (),
                  handleMessage s1 (get_prop message ''msg'') (JRef n) (isInternal (get_prop message ''msg''))))
      else
        (Returned (),
         effect (Bind n handle)
           (s\<lparr>heap := (heap s)(n := new_object DgramSocket handle (get_prop message ''dgramType'')),
              next_ref := Suc n, pending_got := pending_got s @ [(message, n)]\<rparr>)))"

definition got_ready :: "target \<Rightarrow> nat \<Rightarrow> target" where
  "got_ready s i =
     (if i < length (pending_got s) then
        (case pending_got s ! i of
           (message, n) \<Rightarrow>
             handleMessage (s\<lparr>pending_got := take i (pending_got s) @ drop (Suc i) (pending_got s)\<rparr>)
               (get_prop message ''msg'') (JRef n) (isInternal (get_prop message ''msg'')))
      else s)"

subsection \<open>The "internalMessage" handler\<close>

text \<open>The loop over the saved queue: a throw of \<^verbatim>\<open>_send\<close> leaves it.\<close>

fun drain :: "target \<Rightarrow> queued list \<Rightarrow> unit outcome \<times> target" where
  "drain s [] = (Returned (), s)"
| "drain s (a # as) =
     (case internal_send s (q_message a) (q_handle a) (q_options a) (q_callback a) of
        (Threw e, s1) \<Rightarrow> (Threw e, s1)
      | (Returned v, s1) \<Rightarrow> drain s1 as)"

text \<open>The test on \<^verbatim>\<open>target._pendingMessage\<close> at the head of the acknowledgment branch.\<close>

definition settle_pending :: "target \<Rightarrow> bool \<Rightarrow> target" where
  "settle_pending s ack =
     (case pendingMessage s of
        None \<Rightarrow> s
      | Some p \<Rightarrow>
          if ack then closePendingHandle s
          else
            (let s1 = s\<lparr>pendingMessage := Some (p\<lparr>retransmissions := retransmissions p + 1\<rparr>)\<rparr>
             in if retransmissions p = MAX_HANDLE_RETRANSMISSIONS
                then effect (EmitWarning ''Handle did not reach the receiving process correctly''
                                         ''SentHandleNotReceivedWarning'')
                       (closePendingHandle s1)
                else s1))"

definition on_handle_reply :: "target \<Rightarrow> bool \<Rightarrow> unit outcome \<times> target" where
  "on_handle_reply s ack =
     (let s1 = settle_pending s ack in
      if assertions s1 \<and> handleQueue s1 = None then (Threw AssertionError, s1)
      else
        (let queue = handleQueue s1;
             s2 = s1\<lparr>handleQueue := None\<rparr>
         in case (case pendingMessage s2 of
                    None \<Rightarrow> (Returned JUndefined, s2)
                  | Some p \<Rightarrow> internal_send s2 (p_message p) (p_handle p) (p_options p) (p_callback p)) of
              (Threw e, s3) \<Rightarrow> (Threw e, s3)
            | (Returned v, s3) \<Rightarrow>
                (case queue of
                   None \<Rightarrow> (Threw TypeError, s3)
                 | Some q \<Rightarrow>
                     (case drain s3 q of
                        (Threw e, s4) \<Rightarrow> (Threw e, s4)
                      | (Returned u, s4) \<Rightarrow>
                          if \<not> connected s4 \<and> channel s4 \<and> handleQueue s4 = None
                          then internal_disconnect s4
                          else (Returned (), s4)))))"

definition on_handle :: "target \<Rightarrow> jsval \<Rightarrow> jsval \<Rightarrow> unit outcome \<times> target" where
  "on_handle s message handle =
     (if \<not> truthy handle then
        (case internal_send s (JObj [(''cmd'', JStr ''NODE_HANDLE_NACK'')]) JNull (JBool True) JUndefined of
           (Threw e, s1) \<Rightarrow> (Threw e, s1)
         | (Returned v, s1) \<Rightarrow> (Returned (), s1))
      else
        (case internal_send s (JObj [(''cmd'', JStr ''NODE_HANDLE_ACK'')]) JNull (JBool True) JUndefined of
           (Threw e, s1) \<Rightarrow> (Threw e, s1)
         | (Returned v, s1) \<Rightarrow>
             (let s2 = (if win32 s1 then effect (SetSimultaneousAccepts handle False) s1 else s1)
              in case property_key (get_prop message ''type'') of
                   KString ty \<Rightarrow>
                     if ty = ''net.Server'' \<or> ty = ''net.Socket'' \<or> ty = ''dgram.Socket''
                     then got s2 ty message handle
                     else (Threw TypeError, s2)
                 | KSymbol n \<Rightarrow> (Threw TypeError, s2))))"

definition internalMessage_handler :: "target \<Rightarrow> jsval \<Rightarrow> jsval \<Rightarrow> unit outcome \<times> target" where
  "internalMessage_handler s message handle =
     (if nullish message then (Threw TypeError, s)
      else if get_prop message ''cmd'' = JStr ''NODE_HANDLE_ACK'' \<or>
         get_prop message ''cmd'' = JStr ''NODE_HANDLE_NACK''
      then on_handle_reply s (get_prop message ''cmd'' = JStr ''NODE_HANDLE_ACK'')
      else if get_prop message ''cmd'' \<noteq> JStr ''NODE_HANDLE'' then (Returned (), s)
      else on_handle s message handle)"

subsection \<open>The target as an event emitter\<close>

text \<open>
  \<^verbatim>\<open>target.emit(event, message, handle)\<close>.  The trace records the call; the user's
  listeners are outside the source and are taken not to call back into the channel.
  The listeners that the source itself registers run after them: the
  \<^verbatim>\<open>"internalMessage"\<close> handler, and the \<^verbatim>\<open>finish\<close> closures registered with \<^verbatim>\<open>once\<close>
  (those present when the emit starts; each is removed as it is called).
\<close>

definition target_emit :: "target \<Rightarrow> string \<Rightarrow> jsval \<Rightarrow> jsval \<Rightarrow> unit outcome \<times> target" where
  "target_emit s event message handle =
     (let s0 = effect (Emit event message handle) s in
      if event = ''internalMessage'' then
        (let once = once_internalMessage s0 in
         case internalMessage_handler s0 message handle of
           (Threw e, s1) \<Rightarrow> (Threw e, s1)
         | (Returned u, s1) \<Rightarrow>
             (Returned (),
              fold finish once
                (s1\<lparr>once_internalMessage := filter (\<lambda>k. k \<notin> set once) (once_internalMessage s1)\<rparr>)))
      else if event = ''message'' then
        (Returned (), fold finish (once_message s0) (s0\<lparr>once_message := []\<rparr>))
      else (Returned (), s0))"

definition listenerCount_message :: "target \<Rightarrow> nat" where
  "listenerCount_message s = message_listeners s + length (once_message s)"

text \<open>The local function \<^verbatim>\<open>emit\<close> of \<^verbatim>\<open>setupChannel\<close>.\<close>

definition emit :: "target \<Rightarrow> string \<Rightarrow> jsval \<Rightarrow> jsval \<Rightarrow> unit outcome \<times> target" where
  "emit s event message handle =
     (if event = ''internalMessage'' \<or> listenerCount_message s \<noteq> 0
      then target_emit s event message handle
      else if \<not> channel s then (Threw TypeError, s)
      else
        (case ArrayPrototypePush (Some (kPendingMessages s)) [(event, message, handle)] of
           Threw e \<Rightarrow> (Threw e, s)
         | Returned xs \<Rightarrow> (Returned (), s\<lparr>kPendingMessages := xs\<rparr>)))"

text \<open>
  The \<^verbatim>\<open>"newListener"\<close> handler, and a listener registration by the user
  (\<^verbatim>\<open>target.on(event, listener)\<close>): the emitter runs the handler before it adds the
  listener.
\<close>

definition newListener_handler :: "target \<Rightarrow> target" where
  "newListener_handler s = nextTick TFlush s"

definition on :: "target \<Rightarrow> string \<Rightarrow> target" where
  "on s event =
     (let s1 = newListener_handler s in
      if event = ''message'' then s1\<lparr>message_listeners := Suc (message_listeners s1)\<rparr>
      else if event = ''error'' then s1\<lparr>error_listeners := Suc (error_listeners s1)\<rparr>
      else s1)"

definition off :: "target \<Rightarrow> string \<Rightarrow> target" where
  "off s event =
     (if event = ''message'' then s\<lparr>message_listeners := message_listeners s - 1\<rparr>
      else if event = ''error'' then s\<lparr>error_listeners := error_listeners s - 1\<rparr>
      else s)"

text \<open>The callback that the \<^verbatim>\<open>"newListener"\<close> handler schedules.\<close>

fun emit_each :: "target \<Rightarrow> (string \<times> jsval \<times> jsval) list \<Rightarrow> unit outcome \<times> target" where
  "emit_each s [] = (Returned (), s)"
| "emit_each s (m # ms) =
     (case target_emit s (fst m) (fst (snd m)) (snd (snd m)) of
        (Threw e, s1) \<Rightarrow> (Threw e, s1)
      | (Returned u, s1) \<Rightarrow> emit_each s1 ms)"

definition flush :: "target \<Rightarrow> unit outcome \<times> target" where
  "flush s =
     (if \<not> channel s \<or> listenerCount_message s = 0 then (Returned (), s)
      else if kPendingMessages s = [] then (Returned (), s)
      else
        (case emit_each s (kPendingMessages s) of
           (Threw e, s1) \<Rightarrow> (Threw e, s1)
         | (Returned u, s1) \<Rightarrow>
             if \<not> channel s1 then (Threw TypeError, s1)
             else (Returned (), s1\<lparr>kPendingMessages := []\<rparr>)))"

subsection \<open>channel.onread\<close>

text \<open>
  What one read brings: the envelopes that \<^verbatim>\<open>parseChannelMessages\<close> yields for the chunk
  and the value it leaves in \<^verbatim>\<open>channel.buffering\<close>, or no buffer at all (end of file).
\<close>

datatype chunk = Data "jsval list" bool | EOF

fun deliver :: "target \<Rightarrow> jsval list \<Rightarrow> target" where
  "deliver s [] = s"
| "deliver s (message # ms) =
     (if isInternal message then
        (if get_prop message ''cmd'' = JStr ''NODE_HANDLE''
         then deliver ((handleMessage s message (pendingHandle s) True)\<lparr>pendingHandle := JNull\<rparr>) ms
         else deliver (handleMessage s message JUndefined True) ms)
      else deliver (handleMessage s message JUndefined False) ms)"

definition maybeClose :: "target \<Rightarrow> target" where
  "maybeClose s =
     (let s1 = s\<lparr>closesGot := closesGot s + 1\<rparr> in
      if closesGot s1 = closesNeeded s1 then effect EmitClose s1 else s1)"

definition onread :: "target \<Rightarrow> jsval \<Rightarrow> chunk \<Rightarrow> unit outcome \<times> target" where
  "onread s recvHandle c =
     (if channel_onread_nop s then (Returned (), s)
      else
        (case c of
           Data ms b \<Rightarrow>
             (Returned (),
              (deliver (if truthy recvHandle then s\<lparr>pendingHandle := recvHandle\<rparr> else s) ms)
                \<lparr>buffering := b\<rparr>)
         | EOF \<Rightarrow>
             (case disconnect (s\<lparr>buffering := False\<rparr>) of
                (Threw e, s1) \<Rightarrow> (Threw e, s1)
              | (Returned u, s1) \<Rightarrow>
                  (Returned (),
                   maybeClose ((effect ChannelClose (s1\<lparr>channel_onread_nop := True\<rparr>))\<lparr>channel := False\<rparr>)))))"

section \<open>The scheduler and the environment\<close>

definition run_task :: "target \<Rightarrow> task \<Rightarrow> unit outcome \<times> target" where
  "run_task s t =
     (case t of
        TCallback cb e \<Rightarrow> (Returned (), effect (Callback cb e) s)
      | TEmitError e \<Rightarrow> emit_error s e
      | TEmit event message handle \<Rightarrow> emit s event message handle
      | TFlush \<Rightarrow> flush s
      | TFinish k \<Rightarrow> (Returned (), finish k s))"

definition tick :: "target \<Rightarrow> unit outcome \<times> target" where
  "tick s = (case ticks s of [] \<Rightarrow> (Returned (), s) | t # ts \<Rightarrow> run_task (s\<lparr>ticks := ts\<rparr>) t)"

text \<open>\<^verbatim>\<open>req.oncomplete\<close> of the \<open>i\<close>-th write in flight.\<close>

definition write_complete :: "target \<Rightarrow> nat \<Rightarrow> target" where
  "write_complete s i =
     (if i < length (inflight s) then
        (let cb = inflight s ! i;
             s1 = unrefCounted (s\<lparr>inflight := take i (inflight s) @ drop (Suc i) (inflight s)\<rparr>)
         in if typeof cb = ''function'' then effect (Callback cb None) s1 else s1)
      else s)"

text \<open>
  Everything that can happen to a channel once it is set up: a call by the user, a read,
  a scheduled callback, the completion of a write or of a reconstruction.
\<close>

datatype action =
    Send jsval jsval jsval jsval
  | Disconnect
  | On string
  | Off string
  | Read jsval chunk
  | Tick
  | WriteComplete nat
  | GotReady nat
  | CtlRef
  | CtlUnref

definition step :: "target \<Rightarrow> action \<Rightarrow> target" where
  "step s a =
     (case a of
        Send message handle options callback \<Rightarrow> snd (send s message handle options callback)
      | Disconnect \<Rightarrow> snd (disconnect s)
      | On event \<Rightarrow> on s event
      | Off event \<Rightarrow> off s event
      | Read recvHandle c \<Rightarrow> snd (onread s recvHandle c)
      | Tick \<Rightarrow> snd (tick s)
      | WriteComplete i \<Rightarrow> write_complete s i
      | GotReady i \<Rightarrow> got_ready s i
      | CtlRef \<Rightarrow> ref s
      | CtlUnref \<Rightarrow> unref s)"

text \<open>
  \<^verbatim>\<open>setupChannel(target, channel, serializationMode)\<close>: the state it leaves, given the
  transport, the platform, whether assertions are compiled in, the objects that exist,
  the listeners for \<^verbatim>\<open>"message"\<close> and for \<^verbatim>\<open>"error"\<close> that the target already has, and
  the close events the subprocess waits for.
\<close>

definition setupChannel :: "(nat \<Rightarrow> wres) \<Rightarrow> bool \<Rightarrow> bool \<Rightarrow> (nat \<Rightarrow> hobj) \<Rightarrow> nat \<Rightarrow> nat \<Rightarrow> nat \<Rightarrow> int \<Rightarrow> int \<Rightarrow> target" where
  "setupChannel tr win asserts h nref listeners elisteners cgot cneeded =
     \<lparr>connected = True, channel = True, kChannelHandle = True, handleQueue = None,
      pendingMessage = None, kPendingMessages = [], refs = 0, refExplicitlySet = False,
      channel_refed = True, buffering = False, channel_onread_nop = False, sockets_send = [],
      sockets_got = [], pendingHandle = JNull, message_listeners = listeners,
      error_listeners = elisteners, once_message = [],
      once_internalMessage = [], fired = [], next_finish = 0, closesGot = cgot,
      closesNeeded = cneeded, ticks = [], inflight = [], heap = h, next_ref = nref,
      pending_got = [], transport = tr, writes = 0, win32 = win, assertions = asserts,
      trace = []\<rparr>"

section \<open>Observations, runs and examples\<close>

subsection \<open>Observations on the trace\<close>

text \<open>
  The events that the code emits on the target with a message; the writes to the
  channel, those that carry a handle, and those of them that the transport accepted.
\<close>

definition is_emit :: "effect \<Rightarrow> bool" where
  "is_emit e = (case e of Emit ev m h \<Rightarrow> True | _ \<Rightarrow> False)"

definition emitted :: "effect list \<Rightarrow> effect list" where
  "emitted t = filter is_emit t"

definition is_write :: "effect \<Rightarrow> bool" where
  "is_write e = (case e of Write m h err \<Rightarrow> True | _ \<Rightarrow> False)"

definition wire :: "target \<Rightarrow> effect list" where
  "wire s = filter is_write (trace s)"

definition carries_handle :: "effect \<Rightarrow> bool" where
  "carries_handle e = (case e of Write m h err \<Rightarrow> truthy h | _ \<Rightarrow> False)"

definition handle_writes :: "target \<Rightarrow> effect list" where
  "handle_writes s = filter carries_handle (trace s)"

definition starts_handshake :: "effect \<Rightarrow> bool" where
  "starts_handshake e = (case e of Write m h err \<Rightarrow> truthy h \<and> err = 0 | _ \<Rightarrow> False)"

definition handshakes :: "target \<Rightarrow> effect list" where
  "handshakes s = filter starts_handshake (trace s)"

subsection \<open>What a call leaves alone\<close>

text \<open>What sending leaves alone, and what the handlers of inbound events leave alone.\<close>

definition send_frame :: "target \<Rightarrow> target \<Rightarrow> bool" where
  "send_frame s s' \<longleftrightarrow>
     connected s' = connected s \<and> channel s' = channel s \<and> kChannelHandle s' = kChannelHandle s \<and>
     kPendingMessages s' = kPendingMessages s \<and> message_listeners s' = message_listeners s \<and>
     error_listeners s' = error_listeners s \<and>
     once_message s' = once_message s \<and> once_internalMessage s' = once_internalMessage s \<and>
     fired s' = fired s \<and> next_finish s' = next_finish s \<and> buffering s' = buffering s \<and>
     assertions s' = assertions s \<and> win32 s' = win32 s \<and> transport s' = transport s \<and>
     refExplicitlySet s' = refExplicitlySet s \<and> emitted (trace s') = emitted (trace s)"

definition handler_frame :: "target \<Rightarrow> target \<Rightarrow> bool" where
  "handler_frame s s' \<longleftrightarrow>
     connected s' = connected s \<and> kPendingMessages s' = kPendingMessages s \<and>
     message_listeners s' = message_listeners s \<and> error_listeners s' = error_listeners s \<and>
     assertions s' = assertions s \<and>
     win32 s' = win32 s \<and> transport s' = transport s \<and>
     refExplicitlySet s' = refExplicitlySet s \<and> emitted (trace s') = emitted (trace s)"

subsection \<open>Runs\<close>

text \<open>
  A sequence of calls of the automatic entry points of the control object, as the
  writes in flight and the listener count drive them, and a sequence of calls of
  \<^verbatim>\<open>_send\<close>.
\<close>

datatype auto_call = RefCounted | UnrefCounted

fun run_auto :: "target \<Rightarrow> auto_call list \<Rightarrow> target" where
  "run_auto s [] = s"
| "run_auto s (c # cs) =
     run_auto (case c of RefCounted \<Rightarrow> refCounted s | UnrefCounted \<Rightarrow> unrefCounted s) cs"

fun run_sends :: "target \<Rightarrow> (jsval \<times> jsval \<times> jsval \<times> jsval) list \<Rightarrow> target" where
  "run_sends s [] = s"
| "run_sends s ((message, handle, options, callback) # cs) =
     run_sends (snd (internal_send s message handle options callback)) cs"

subsection \<open>Inbound messages\<close>

text \<open>
  The user messages that the target has emitted as \<^verbatim>\<open>"message"\<close>, those in the pending
  buffer, and those whose emission is scheduled, each with its handle and in order; and
  the messages that the reads of a run bring.
\<close>

definition delivered :: "target \<Rightarrow> (jsval \<times> jsval) list" where
  "delivered s =
     concat (map (\<lambda>e. case e of Emit ev m h \<Rightarrow> (if ev = ''message'' then [(m, h)] else []) | _ \<Rightarrow> [])
                 (trace s))"

definition buffered :: "target \<Rightarrow> (jsval \<times> jsval) list" where
  "buffered s = map snd (kPendingMessages s)"

definition scheduled :: "target \<Rightarrow> (jsval \<times> jsval) list" where
  "scheduled s =
     concat (map (\<lambda>t. case t of TEmit ev m h \<Rightarrow> (if ev = ''message'' then [(m, h)] else []) | _ \<Rightarrow> [])
                 (ticks s))"



text \<open>
  The envelopes of the handle handshake, which the \<^verbatim>\<open>"internalMessage"\<close> handler of
  \<^verbatim>\<open>setupChannel\<close> acts on; it returns at once on every other internal envelope.
\<close>

definition handshake_command :: "jsval \<Rightarrow> bool" where
  "handshake_command m \<longleftrightarrow>
     get_prop m ''cmd'' = JStr ''NODE_HANDLE'' \<or> get_prop m ''cmd'' = JStr ''NODE_HANDLE_ACK'' \<or>
     get_prop m ''cmd'' = JStr ''NODE_HANDLE_NACK''"


definition receivable :: "task \<Rightarrow> bool" where
  "receivable t =
     (case t of
        TEmit ev m h \<Rightarrow> ev = ''message'' \<or> (ev = ''internalMessage'' \<and> isInternal m \<and> \<not> handshake_command m)
      | TFlush \<Rightarrow> True
      | _ \<Rightarrow> False)"

definition receiving :: "target \<Rightarrow> bool" where
  "receiving s \<longleftrightarrow>
     channel s \<and> \<not> channel_onread_nop s \<and> once_message s = [] \<and> once_internalMessage s = [] \<and>
     list_all receivable (ticks s) \<and> list_all (\<lambda>x. fst x = ''message'') (kPendingMessages s)"

subsection \<open>The arguments of \<^verbatim>\<open>send\<close>\<close>

text \<open>
  The options that the validation of \<^verbatim>\<open>send\<close> rejects, the handle and the callback that
  are in force after the argument shuffle, the callback that \<^verbatim>\<open>send\<close> schedules on a
  channel that is not connected, and the messages that pass the validation of \<^verbatim>\<open>_send\<close>.
\<close>

definition rejects_options :: "jsval \<Rightarrow> jsval \<Rightarrow> bool" where
  "rejects_options handle options \<longleftrightarrow>
     typeof handle \<noteq> ''function'' \<and> typeof options \<noteq> ''function'' \<and> options \<noteq> JUndefined \<and>
     validateObject options ''options'' \<noteq> None"

definition supplied_handle :: "jsval \<Rightarrow> jsval" where
  "supplied_handle handle = (if typeof handle = ''function'' then JUndefined else handle)"

definition sendable :: "jsval \<Rightarrow> bool" where
  "sendable message \<longleftrightarrow>
     message \<noteq> JUndefined \<and>
     (typeof message = ''string'' \<or> typeof message = ''object'' \<or> typeof message = ''number'' \<or>
      typeof message = ''boolean'')"

definition supplied_callback :: "jsval \<Rightarrow> jsval \<Rightarrow> jsval \<Rightarrow> jsval" where
  "supplied_callback handle options callback =
     (if typeof handle = ''function'' then handle
      else if typeof options = ''function'' then options else callback)"

definition closed_task :: "jsval \<Rightarrow> task" where
  "closed_task cb =
     (if typeof cb = ''function'' then TCallback cb (Some ERR_IPC_CHANNEL_CLOSED)
      else TEmitError ERR_IPC_CHANNEL_CLOSED)"

subsection \<open>A backlog of plain messages\<close>

text \<open>
  An entry of \<^verbatim>\<open>_handleQueue\<close> for a message without a handle that \<^verbatim>\<open>_send\<close> accepts,
  and the writes that sending such entries one after the other makes on a transport,
  the first of them being write number \<open>n\<close>.
\<close>

definition plain_entry :: "queued \<Rightarrow> bool" where
  "plain_entry a \<longleftrightarrow>
     \<not> truthy (q_handle a) \<and> sendable (q_message a) \<and> \<not> nullish (legacy_options (q_options a))"

fun written :: "(nat \<Rightarrow> wres) \<Rightarrow> nat \<Rightarrow> queued list \<Rightarrow> effect list" where
  "written tr n [] = []"
| "written tr n (a # as) = Write (q_message a) (q_handle a) (w_err (tr n)) # written tr (Suc n) as"

subsection \<open>The replies of the receiver\<close>

text \<open>
  The reply that the \<^verbatim>\<open>"internalMessage"\<close> handler sends for a \<^verbatim>\<open>NODE_HANDLE\<close> envelope:
  \<^verbatim>\<open>target._send({ cmd }, null, true)\<close>, and the state it leaves.
\<close>

definition replied :: "target \<Rightarrow> string \<Rightarrow> target" where
  "replied s cmd = snd (internal_send s (JObj [(''cmd'', JStr cmd)]) JNull (JBool True) JUndefined)"

subsection \<open>An example configuration\<close>

text \<open>
  A transport on which every write succeeds at once and nothing is buffered; a heap with
  two sockets (0 and 2, over the raw handles 1 and 3), a listening server (4, over 5) and
  a datagram socket (6, over 7); and the state \<^verbatim>\<open>setupChannel\<close> leaves on them.
\<close>

definition idle_transport :: "nat \<Rightarrow> wres" where
  "idle_transport n = \<lparr>w_err = 0, w_async = False, w_queue = 0\<rparr>"


definition example_object :: "hclass \<Rightarrow> nat option \<Rightarrow> hobj" where
  "example_object c raw =
     \<lparr>hclass = c, raw_handle = raw, server = None, connectionKey = [], connections = 0,
      dgram_type = JStr ''udp4'', onread_nop = False\<rparr>"

definition example_heap :: "nat \<Rightarrow> hobj" where
  "example_heap r =
     (if r = 0 then example_object NetSocket (Some 1)
      else if r = 2 then example_object NetSocket (Some 3)
      else if r = 4 then example_object NetServer (Some 5)
      else if r = 6 then example_object DgramSocket (Some 7)
      else example_object NativeHandle None)"

definition example_target :: target where
  "example_target = setupChannel idle_transport False False example_heap 8 0 0 0 1"

text \<open>
  The example target after \<^verbatim>\<open>send("a", socket0)\<close>: the handle is on the wire and its
  acknowledgment is awaited.  And the example target after \<^verbatim>\<open>disconnect()\<close>.
\<close>

definition example_awaiting :: target where
  "example_awaiting = snd (send example_target (JStr ''a'') (JRef 0) JUndefined JUndefined)"

definition example_disconnected :: target where
  "example_disconnected = snd (disconnect example_target)"

section \<open>What the calls leave alone\<close>

lemma emitted_simps [simp]:
  "emitted [] = []"
  "emitted (t @ u) = emitted t @ emitted u"
  "emitted (e # t) = (if is_emit e then e # emitted t else emitted t)"
  by (simp_all add: emitted_def)

lemma is_emit_simps [simp]:
  "is_emit (Write m h err) = False"
  "is_emit (Emit ev m h) = True"
  "is_emit (EmitError er) = False"
  "is_emit EmitDisconnect = False"
  "is_emit EmitClose = False"
  "is_emit (EmitWarning wa wb) = False"
  "is_emit (HandleClose h) = False"
  "is_emit ChannelClose = False"
  "is_emit ChannelRef = False"
  "is_emit ChannelUnref = False"
  "is_emit ControlEmitUnref = False"
  "is_emit (Callback cb eo) = False"
  "is_emit (SetSimultaneousAccepts h b) = False"
  "is_emit (SetupWorker n k) = False"
  "is_emit (SocketListAdd key n) = False"
  "is_emit (SetTimeout n) = False"
  "is_emit (Listen n h) = False"
  "is_emit (Bind n h) = False"
  by (simp_all add: is_emit_def)

lemma ArrayPrototypePush_simps [simp]:
  "ArrayPrototypePush None items = Threw TypeError"
  "ArrayPrototypePush (Some xs) items = Returned (xs @ items)"
  by (simp_all add: ArrayPrototypePush_def)

lemma enqueue_throws [simp]: "enqueue s q a = (Threw TypeError, s)"
  by (simp add: enqueue_def)

lemma send_frame_refl [simp]: "send_frame s s"
  by (simp add: send_frame_def)

lemma send_frame_trans: "send_frame s s1 \<Longrightarrow> send_frame s1 s2 \<Longrightarrow> send_frame s s2"
  by (simp add: send_frame_def)

lemma refCounted_frame: "send_frame s (refCounted s)"
  by (simp add: send_frame_def refCounted_def Let_def effect_def)

lemma postSend_frame: "postSend s m h opts cb w = (r, s') \<Longrightarrow> send_frame s s'"
  by (auto simp: send_frame_def postSend_def effect_def split: if_splits)

lemma track_socket_frame: "track_socket s m srv opts = (r, s') \<Longrightarrow> send_frame s s'"
  by (auto simp: send_frame_def track_socket_def Let_def effect_def split: if_splits)

lemma net_Socket_send_frame: "net_Socket_send s m sock opts = (r, s') \<Longrightarrow> send_frame s s'"
  unfolding net_Socket_send_def
  by (auto simp: effect_def split: if_splits option.splits prod.splits outcome.splits
      dest!: track_socket_frame) (simp_all add: send_frame_def)

lemma convert_send_frame: "convert_send s ty m h opts = (r, s') \<Longrightarrow> send_frame s s'"
  by (cases h) (auto simp: convert_send_def net_Server_send_def dgram_Socket_send_def
      split: if_splits dest: net_Socket_send_frame)

lemma write_message_frame: "write_message s obj m h opts cb = (r, s') \<Longrightarrow> send_frame s s'"
  unfolding write_message_def Let_def
  using refCounted_frame[of "s'' \<lparr>inflight := x\<rparr>" for s'' x]
  apply (auto simp: effect_def nextTick_def split: if_splits prod.splits outcome.splits
      dest!: postSend_frame)
                      apply (simp_all add: send_frame_def)
  done

lemma internal_send_cases [consumes 1, case_names threw push_threw convert_threw accepts_threw wrote_handle wrote_plain]:
  assumes "internal_send s m h o0 cb = (r, s')"
  obtains
    e where "r = Threw e" "s' = s"
  | q where "handleQueue s = Some q" "truthy h \<or> \<not> is_handle_reply m"
      "r = Threw TypeError" "s' = s"
  | t e where "truthy h" "handleQueue s = None" "handle_tag s h = Some t"
      "convert_send s t (envelope t m) h (legacy_options o0) = (Threw e, s')" "r = Threw e"
  | t env h' where "truthy h" "handleQueue s = None" "handle_tag s h = Some t"
      "convert_send s t (envelope t m) h (legacy_options o0) = (Returned (env, h'), s')"
      "t = ''net.Server''" "win32 s'" "\<not> truthy h'" "r = Threw TypeError"
  | t env h' s1 where "truthy h" "handleQueue s = None" "handle_tag s h = Some t"
      "convert_send s t (envelope t m) h (legacy_options o0) = (Returned (env, h'), s1)"
      "write_message (if t = ''net.Server'' \<and> win32 s1 then effect (SetSimultaneousAccepts h' True) s1 else s1)
         (Some t) (if \<not> truthy h' then get_prop env ''msg'' else env) h' (legacy_options o0) cb = (r, s')"
  | "\<not> truthy h" "handleQueue s = None \<or> is_handle_reply m"
      "write_message s None m h (legacy_options o0) cb = (r, s')"
proof (cases "(assertions s \<and> \<not> (connected s \<or> channel s)) \<or> m = JUndefined \<or>
              (typeof m \<noteq> ''string'' \<and> typeof m \<noteq> ''object'' \<and> typeof m \<noteq> ''number'' \<and> typeof m \<noteq> ''boolean'')")
  case True
  then have "s' = s \<and> (\<exists>e. r = Threw e)"
    using assms by (auto simp: internal_send_def split: if_splits)
  then show ?thesis using that(1) by blast
next
  case valid: False
  show ?thesis
  proof (cases "truthy h")
    case th: True
    show ?thesis
    proof (cases "handle_tag s h")
      case None
      then have "s' = s \<and> r = Threw ERR_INVALID_HANDLE_TYPE"
        using assms valid th by (auto simp: internal_send_def Let_def split: if_splits)
      then show ?thesis using that(1) by blast
    next
      case (Some t)
      show ?thesis
      proof (cases "handleQueue s")
        case (Some q)
        then show ?thesis
          using assms valid th \<open>handle_tag s h = Some t\<close> that(2)[of q]
          by (auto simp: internal_send_def Let_def enqueue_def ArrayPrototypePush_def split: if_splits)
      next
        case None
        obtain c s1 where c: "convert_send s t (envelope t m) h (legacy_options o0) = (c, s1)"
          by (cases "convert_send s t (envelope t m) h (legacy_options o0)")
        show ?thesis
        proof (cases c)
          case (Threw e)
          then show ?thesis
            using assms valid th \<open>handle_tag s h = Some t\<close> None c that(3)[of t e]
            by (auto simp: internal_send_def Let_def split: if_splits)
        next
          case (Returned p)
          obtain env h' where p: "p = (env, h')" by (cases p)
          show ?thesis
          proof (cases "t = ''net.Server'' \<and> win32 s1 \<and> \<not> truthy h'")
            case True
            then show ?thesis
              using assms valid th \<open>handle_tag s h = Some t\<close> None c Returned p that(4)[of t env h']
              by (auto simp: internal_send_def Let_def split: if_splits)
          next
            case False
            then show ?thesis
              using assms valid th \<open>handle_tag s h = Some t\<close> None c Returned p that(5)[of t env h' s1]
              by (auto simp: internal_send_def Let_def split: if_splits)
          qed
        qed
      qed
    qed
  next
    case nh: False
    show ?thesis
    proof (cases "handleQueue s = None \<or> is_handle_reply m")
      case True
      then show ?thesis using assms valid nh that(6)
        by (auto simp: internal_send_def Let_def split: option.splits)
    next
      case False
      then obtain q where "handleQueue s = Some q" by auto
      then show ?thesis using assms valid nh False that(2)[of q]
        by (auto simp: internal_send_def Let_def enqueue_def ArrayPrototypePush_def split: if_splits)
    qed
  qed
qed

lemma internal_send_frame:
  assumes "internal_send s m h opts cb = (r, s')"
  shows "send_frame s s'"
  using assms
proof (cases rule: internal_send_cases)
  case (wrote_handle t env h' s1)
  have "send_frame s s1" using convert_send_frame[OF wrote_handle(4)] .
  moreover have "send_frame s1 (if t = ''net.Server'' \<and> win32 s1 then effect (SetSimultaneousAccepts h' True) s1 else s1)"
    by (simp add: send_frame_def effect_def)
  ultimately show ?thesis using write_message_frame[OF wrote_handle(5)]
    by (blast intro: send_frame_trans)
qed (auto dest: convert_send_frame write_message_frame simp: send_frame_def)

lemma drain_frame: "drain s q = (r, s') \<Longrightarrow> send_frame s s'"
proof (induction q arbitrary: s)
  case Nil
  then show ?case by simp
next
  case (Cons a q)
  obtain r1 s1 where a: "internal_send s (q_message a) (q_handle a) (q_options a) (q_callback a) = (r1, s1)"
    by (cases "internal_send s (q_message a) (q_handle a) (q_options a) (q_callback a)")
  have f: "send_frame s s1" using internal_send_frame[OF a] .
  show ?case
  proof (cases r1)
    case (Returned v)
    with Cons.prems a have "drain s1 q = (r, s')" by simp
    from Cons.IH[OF this] f show ?thesis by (rule send_frame_trans[rotated])
  next
    case (Threw e)
    with Cons.prems a f show ?thesis by simp
  qed
qed

lemma handler_frame_refl [simp]: "handler_frame s s"
  by (simp add: handler_frame_def)

lemma handler_frame_trans: "handler_frame s s1 \<Longrightarrow> handler_frame s1 s2 \<Longrightarrow> handler_frame s s2"
  by (simp add: handler_frame_def)

lemma send_frame_handler_frame: "send_frame s s' \<Longrightarrow> handler_frame s s'"
  by (simp add: send_frame_def handler_frame_def)

lemma closePendingHandle_frame: "handler_frame s (closePendingHandle s)"
  by (simp add: handler_frame_def closePendingHandle_def effect_def split: option.splits)

lemma settle_pending_frame: "handler_frame s (settle_pending s ack)"
  by (simp add: settle_pending_def Let_def effect_def closePendingHandle_def handler_frame_def
      split: option.splits)

lemma internal_disconnect_frame: "internal_disconnect s = (r, s') \<Longrightarrow> handler_frame s s'"
  unfolding internal_disconnect_def Let_def
  by (auto simp: nextTick_def closePendingHandle_def effect_def handler_frame_def
      split: if_splits option.splits)

lemma handleMessage_frame: "handler_frame s (handleMessage s m h i)"
  by (simp add: handleMessage_def handler_frame_def nextTick_def)

lemma got_frame: "got s ty m h = (r, s') \<Longrightarrow> handler_frame s s'"
  unfolding got_def Let_def
  by (auto simp: effect_def handleMessage_def nextTick_def handler_frame_def split: if_splits)

lemma on_handle_frame:
  assumes "on_handle s m h = (r, s')"
  shows "handler_frame s s'"
proof (cases "truthy h")
  case False
  obtain r1 s1 where a: "internal_send s (JObj [(''cmd'', JStr ''NODE_HANDLE_NACK'')]) JNull (JBool True) JUndefined = (r1, s1)"
    by (cases "internal_send s (JObj [(''cmd'', JStr ''NODE_HANDLE_NACK'')]) JNull (JBool True) JUndefined")
  have "s' = s1" using assms False a by (cases r1) (simp_all add: on_handle_def)
  then show ?thesis using send_frame_handler_frame[OF internal_send_frame[OF a]] by simp
next
  case True
  obtain r1 s1 where a: "internal_send s (JObj [(''cmd'', JStr ''NODE_HANDLE_ACK'')]) JNull (JBool True) JUndefined = (r1, s1)"
    by (cases "internal_send s (JObj [(''cmd'', JStr ''NODE_HANDLE_ACK'')]) JNull (JBool True) JUndefined")
  have f1: "handler_frame s s1" using send_frame_handler_frame[OF internal_send_frame[OF a]] .
  show ?thesis
  proof (cases r1)
    case (Threw e)
    then show ?thesis using assms True a f1 by (simp add: on_handle_def)
  next
    case (Returned v)
    let ?s2 = "if win32 s1 then effect (SetSimultaneousAccepts h False) s1 else s1"
    have f2: "handler_frame s ?s2" using f1 by (simp add: handler_frame_def effect_def)
    have "s' = ?s2 \<or> (\<exists>ty. got ?s2 ty m h = (r, s'))"
      using assms True a Returned
      by (auto simp: on_handle_def Let_def split: pkey.splits if_splits)
    then show ?thesis using f2 got_frame handler_frame_trans by blast
  qed
qed

lemma on_handle_reply_frame:
  assumes "on_handle_reply s ack = (r, s')"
  shows "handler_frame s s'"
proof -
  let ?s1 = "settle_pending s ack"
  let ?s2 = "?s1\<lparr>handleQueue := None\<rparr>"
  have f2: "handler_frame s ?s2"
    using settle_pending_frame[of s ack] by (simp add: handler_frame_def)
  let ?p = "case pendingMessage ?s2 of None \<Rightarrow> (Returned JUndefined, ?s2)
            | Some p \<Rightarrow> internal_send ?s2 (p_message p) (p_handle p) (p_options p) (p_callback p)"
  obtain r3 s3 where p: "?p = (r3, s3)" by (cases ?p)
  have f3: "handler_frame s s3"
    using p f2 by (auto split: option.splits dest!: internal_send_frame send_frame_handler_frame
        intro: handler_frame_trans)
  show ?thesis
  proof (cases "assertions ?s1 \<and> handleQueue ?s1 = None")
    case True
    then show ?thesis using assms settle_pending_frame[of s ack] by (simp add: on_handle_reply_def Let_def)
  next
    case na: False
    show ?thesis
    proof (cases r3)
      case (Threw e)
      then show ?thesis using assms na p f3 by (auto simp: on_handle_reply_def Let_def)
    next
      case (Returned v)
      show ?thesis
      proof (cases "handleQueue ?s1")
        case None
        then show ?thesis using assms na p f3 Returned by (auto simp: on_handle_reply_def Let_def)
      next
        case (Some q)
        obtain r4 s4 where d: "drain s3 q = (r4, s4)" by (cases "drain s3 q")
        have f4: "handler_frame s s4"
          using handler_frame_trans[OF f3 send_frame_handler_frame[OF drain_frame[OF d]]] .
        show ?thesis
        proof (cases r4)
          case (Threw e)
          then show ?thesis using assms na p Returned Some d f4
            by (auto simp: on_handle_reply_def Let_def)
        next
          case r4: (Returned u)
          have "s' = s4 \<or> internal_disconnect s4 = (r, s')"
            using assms na p Returned Some d r4
            by (auto simp: on_handle_reply_def Let_def split: if_splits)
          then show ?thesis using f4 internal_disconnect_frame handler_frame_trans by blast
        qed
      qed
    qed
  qed
qed

lemma internalMessage_handler_frame: "internalMessage_handler s m h = (r, s') \<Longrightarrow> handler_frame s s'"
  unfolding internalMessage_handler_def
  by (auto split: if_splits dest: on_handle_reply_frame on_handle_frame)

lemma finish_frame: "handler_frame s (finish k s)"
  by (simp add: finish_def handler_frame_def effect_def)

lemma fold_finish_frame: "handler_frame s (fold finish ks s)"
proof (induction ks arbitrary: s)
  case Nil
  then show ?case by simp
next
  case (Cons k ks)
  show ?case using handler_frame_trans[OF finish_frame[of s k] Cons.IH[of "finish k s"]] by simp
qed

section \<open>The control object\<close>

lemma run_auto_explicit:
  "refExplicitlySet s \<Longrightarrow>
     channel_refed (run_auto s cs) = channel_refed s \<and> trace (run_auto s cs) = trace s \<and>
     refExplicitlySet (run_auto s cs)"
proof (induction cs arbitrary: s)
  case Nil
  then show ?case by simp
next
  case (Cons c cs)
  let ?s1 = "case c of RefCounted \<Rightarrow> refCounted s | UnrefCounted \<Rightarrow> unrefCounted s"
  have a: "refExplicitlySet ?s1" "channel_refed ?s1 = channel_refed s" "trace ?s1 = trace s"
    using Cons.prems by (cases c; simp add: refCounted_def unrefCounted_def Let_def)+
  from Cons.IH[OF a(1)] a show ?case by simp
qed

text \<open>
  C9.  After the explicit \<^verbatim>\<open>ref()\<close> the channel is referenced, after the explicit
  \<^verbatim>\<open>unref()\<close> it is not, and no sequence of automatic calls (\<^verbatim>\<open>refCounted\<close>,
  \<^verbatim>\<open>unrefCounted\<close>) that follows changes that or calls the channel's \<^verbatim>\<open>ref\<close>/\<^verbatim>\<open>unref\<close>
  or emits \<^verbatim>\<open>"unref"\<close> again: the trace stays as the explicit call left it, and the
  explicit flag stays set.
\<close>

theorem explicit_ref_makes_automatic_counting_inert:
  "channel_refed (run_auto (ref s) cs) \<and> \<not> channel_refed (run_auto (unref s) cs) \<and>
   trace (run_auto (ref s) cs) = trace s @ [ChannelRef] \<and>
   trace (run_auto (unref s) cs) = trace s @ [ChannelUnref] \<and>
   refExplicitlySet (run_auto (ref s) cs) \<and> refExplicitlySet (run_auto (unref s) cs)"
  using run_auto_explicit[of "ref s" cs] run_auto_explicit[of "unref s" cs]
  by (simp add: ref_def unref_def effect_def)

theorem explicit_ref_makes_automatic_counting_inert_witness:
  "\<not> channel_refed (run_auto (unref example_target) [RefCounted, UnrefCounted, RefCounted]) \<and>
   trace (run_auto (unref example_target) [RefCounted, UnrefCounted, RefCounted]) = [ChannelUnref] \<and>
   trace (run_auto example_target [RefCounted, UnrefCounted, RefCounted]) =
     [ChannelRef, ChannelUnref, ControlEmitUnref, ChannelRef]"
proof -
  have "trace (run_auto example_target [RefCounted, UnrefCounted, RefCounted]) =
     [ChannelRef, ChannelUnref, ControlEmitUnref, ChannelRef]"
    by (simp add: example_target_def setupChannel_def refCounted_def unrefCounted_def effect_def Let_def)
  moreover have "trace example_target = []"
    by (simp add: example_target_def setupChannel_def)
  ultimately show ?thesis
    using explicit_ref_makes_automatic_counting_inert[of example_target "[RefCounted, UnrefCounted, RefCounted]"]
    by simp
qed

lemmas eval_defs = send_def internal_send_def legacy_options_def handle_tag_def instance_of_def
  envelope_def convert_send_def net_Socket_send_def net_Server_send_def dgram_Socket_send_def
  track_socket_def write_message_def postSend_def enqueue_def ArrayPrototypePush_def
  is_handle_reply_def raw_of_def emit_error_def
  validateObject_def nullish_def effect_def nextTick_def refCounted_def unrefCounted_def
  example_target_def setupChannel_def example_heap_def example_object_def idle_transport_def Let_def

lemma example_awaiting_eq:
  "example_awaiting =
     example_target\<lparr>
       handleQueue := Some [],
       pendingMessage := Some \<lparr>p_callback = JUndefined, p_message = envelope ''net.Socket'' (JStr ''a''),
                                p_handle = JRef 1, p_options = JObj [(''swallowErrors'', JBool False)],
                                retransmissions = 0\<rparr>,
       heap := (example_heap(1 := (example_heap 1)\<lparr>onread_nop := True\<rparr>))
                 (0 := (example_heap 0)\<lparr>raw_handle := None\<rparr>),
       writes := 1,
       trace := [SetTimeout 0, Write (envelope ''net.Socket'' (JStr ''a'')) (JRef 1) 0]\<rparr>"
  by (simp add: example_awaiting_def eval_defs)

section \<open>What one call of \<^verbatim>\<open>_send\<close> does\<close>

lemmas trace_defs = wire_def handle_writes_def is_write_def carries_handle_def

lemma write_message_writes:
  assumes "write_message s obj m h opts cb = (r, s')"
  shows "wire s' = wire s @ [Write m h (w_err (transport s (writes s)))]"
    and "writes s' = Suc (writes s)"
    and "transport s' = transport s"
    and "handle_writes s' = handle_writes s @ (if truthy h then [Write m h (w_err (transport s (writes s)))] else [])"
    and "r = Returned v \<Longrightarrow> v = JBool (w_queue (transport s (writes s)) < 65536 * 2)"
  using assms unfolding write_message_def Let_def
  by (auto simp: trace_defs postSend_def refCounted_def effect_def nextTick_def Let_def
      split: if_splits prod.splits outcome.splits)

lemma write_message_plain:
  assumes "write_message s None m h opts cb = (r, s')" and "\<not> truthy h"
  shows "handleQueue s' = handleQueue s" and "pendingMessage s' = pendingMessage s"
  using assms unfolding write_message_def Let_def
  by (auto simp: refCounted_def effect_def nextTick_def Let_def split: if_splits)

lemma convert_send_quiet:
  assumes "convert_send s t m h opts = (r, s')"
  shows "wire s' = wire s" and "writes s' = writes s" and "transport s' = transport s"
    and "handle_writes s' = handle_writes s"
    and "handleQueue s' = handleQueue s" and "pendingMessage s' = pendingMessage s"
  using assms unfolding convert_send_def net_Socket_send_def net_Server_send_def
    dgram_Socket_send_def track_socket_def Let_def
  by (auto simp: trace_defs effect_def split: if_splits jsval.splits option.splits prod.splits outcome.splits)

lemma internal_send_awaiting:
  assumes "handleQueue s = Some q" and "internal_send s m h opts cb = (r, s')"
  shows "(\<exists>q'. handleQueue s' = Some q') \<and> pendingMessage s' = pendingMessage s \<and>
         handle_writes s' = handle_writes s"
  using assms(2)
proof (cases rule: internal_send_cases)
  case (threw e)
  then show ?thesis using assms(1) by simp
next
  case (push_threw q')
  then show ?thesis using assms(1) by simp
next
  case wrote_plain
  then show ?thesis
    using assms(1) write_message_plain[OF wrote_plain(3) wrote_plain(1)]
      write_message_writes(4)[OF wrote_plain(3)]
    by simp
qed (use assms(1) in simp_all)

lemma run_sends_awaiting:
  "handleQueue s = Some q \<Longrightarrow>
     pendingMessage (run_sends s cs) = pendingMessage s \<and> handle_writes (run_sends s cs) = handle_writes s"
proof (induction cs arbitrary: s q)
  case Nil
  then show ?case by simp
next
  case (Cons c cs)
  obtain m h opts cb where c: "c = (m, h, opts, cb)" by (cases c)
  obtain r s1 where a: "internal_send s m h opts cb = (r, s1)" by (cases "internal_send s m h opts cb")
  from internal_send_awaiting[OF Cons.prems a] obtain q' where
    q': "handleQueue s1 = Some q'" and k: "pendingMessage s1 = pendingMessage s" "handle_writes s1 = handle_writes s"
    by blast
  from Cons.IH[OF q'] k c a show ?case by simp
qed




section \<open>Sending on a channel that is not connected\<close>

lemma send_not_connected:
  assumes "\<not> connected s"
  shows "send s message handle options callback =
     (if rejects_options handle options
      then (Threw (ERR_INVALID_ARG_TYPE ''options'' ''object'' options), s)
      else (Returned (JBool False),
            nextTick (closed_task (supplied_callback handle options callback)) s))"
  using assms
  by (auto simp: send_def Let_def rejects_options_def supplied_callback_def closed_task_def
      validateObject_def split: option.splits if_splits)

lemma send_connected:
  assumes "connected s"
  shows "send s message handle options callback =
     (if rejects_options handle options
      then (Threw (ERR_INVALID_ARG_TYPE ''options'' ''object'' options), s)
      else internal_send s message
             (if typeof handle = ''function'' then JUndefined else handle)
             (spread_options (if typeof handle = ''function'' \<or> typeof options = ''function''
                              then JUndefined else options))
             (supplied_callback handle options callback))"
  using assms
  by (auto simp: send_def Let_def rejects_options_def supplied_callback_def
      validateObject_def split: option.splits if_splits)

lemma example_disconnected_eq:
  "example_disconnected =
     example_target\<lparr>connected := False, channel := False, kChannelHandle := False,
                    next_finish := 1, ticks := [TFinish 0]\<rparr>"
  by (simp add: example_disconnected_def disconnect_def internal_disconnect_def eval_defs)

text \<open>
  C3 (as amended).  On a channel that is not connected, a call of \<^verbatim>\<open>send\<close> writes nothing
  and does nothing at once (the trace stays as it is); unless the validation rejects its
  options argument, in which case it throws and schedules nothing, it returns false and
  schedules one callback for a later tick, which when it runs gives
  \<^verbatim>\<open>ERR_IPC_CHANNEL_CLOSED\<close> to the callback supplied, or emits it as \<^verbatim>\<open>"error"\<close> when
  none was (to the listeners for \<^verbatim>\<open>"error"\<close>; with none, the emitter throws it from the
  tick).
\<close>

theorem send_on_disconnected_channel:
  assumes "\<not> connected s"
  shows "trace (snd (send s message handle options callback)) = trace s \<and>
         wire (snd (send s message handle options callback)) = wire s \<and>
         (if rejects_options handle options
          then send s message handle options callback =
                 (Threw (ERR_INVALID_ARG_TYPE ''options'' ''object'' options), s)
          else fst (send s message handle options callback) = Returned (JBool False) \<and>
               ticks (snd (send s message handle options callback)) =
                 ticks s @ [closed_task (supplied_callback handle options callback)]) \<and>
         run_task t (closed_task cb) =
           (if typeof cb = ''function''
            then (Returned (), effect (Callback cb (Some ERR_IPC_CHANNEL_CLOSED)) t)
            else if error_listeners t = 0 then (Threw ERR_IPC_CHANNEL_CLOSED, t)
            else (Returned (), effect (EmitError ERR_IPC_CHANNEL_CLOSED) t))"
  using send_not_connected[OF assms, of message handle options callback]
  by (simp add: wire_def nextTick_def run_task_def closed_task_def emit_error_def)

theorem send_on_disconnected_channel_witness:
  "fst (send example_disconnected (JStr ''m'') JUndefined JUndefined (JFunc 7)) = Returned (JBool False) \<and>
   trace (snd (send example_disconnected (JStr ''m'') JUndefined JUndefined (JFunc 7))) = [] \<and>
   ticks (snd (send example_disconnected (JStr ''m'') JUndefined JUndefined (JFunc 7))) =
     [TFinish 0, TCallback (JFunc 7) (Some ERR_IPC_CHANNEL_CLOSED)] \<and>
   ticks (snd (send example_disconnected (JStr ''m'') JUndefined JUndefined JUndefined)) =
     [TFinish 0, TEmitError ERR_IPC_CHANNEL_CLOSED] \<and>
   run_task (on example_disconnected ''error'') (TEmitError ERR_IPC_CHANNEL_CLOSED) =
     (Returned (), effect (EmitError ERR_IPC_CHANNEL_CLOSED) (on example_disconnected ''error''))"
proof -
  have d: "\<not> connected example_disconnected" "ticks example_disconnected = [TFinish 0]"
    "trace example_disconnected = []"
    by (simp_all add: example_disconnected_eq eval_defs)
  have l: "error_listeners (on example_disconnected ''error'') = 1"
    by (simp add: on_def newListener_handler_def nextTick_def example_disconnected_eq eval_defs)
  show ?thesis
    using send_on_disconnected_channel[OF d(1), of "JStr ''m''" JUndefined JUndefined "JFunc 7"]
      send_on_disconnected_channel[OF d(1), of "JStr ''m''" JUndefined JUndefined JUndefined
        "on example_disconnected ''error''" JUndefined] d l
    by (simp add: rejects_options_def supplied_callback_def closed_task_def)
qed

text \<open>
  The claim as stated has every call on a disconnected channel return false and deliver
  \<^verbatim>\<open>ERR_IPC_CHANNEL_CLOSED\<close>; a call whose options argument is a number throws
  \<^verbatim>\<open>ERR_INVALID_ARG_TYPE\<close> at once and schedules nothing.
\<close>

theorem send_disconnected_bad_options_throws:
  "\<not> connected example_disconnected \<and>
   send example_disconnected (JStr ''m'') JUndefined (JNum 5) JUndefined =
     (Threw (ERR_INVALID_ARG_TYPE ''options'' ''object'' (JNum 5)), example_disconnected)"
  by (simp add: example_disconnected_eq eval_defs)

text \<open>
  C10.  On a channel that is not connected \<^verbatim>\<open>send\<close> looks at nothing but its options
  argument: whatever the message and the handle are (undefined, of a type that cannot be
  sent, of a class that cannot be transferred), it returns false and schedules
  \<^verbatim>\<open>ERR_IPC_CHANNEL_CLOSED\<close>, unless the options are rejected, which throws
  \<^verbatim>\<open>ERR_INVALID_ARG_TYPE\<close> for \<^verbatim>\<open>options\<close>.  So any other error thrown by \<^verbatim>\<open>send\<close> means
  that the channel is connected; and on a connected channel an undefined message does
  throw \<^verbatim>\<open>ERR_MISSING_ARGS\<close>.
\<close>

theorem validation_only_while_connected:
  "(\<not> connected s \<and> \<not> rejects_options handle options \<longrightarrow>
      send s message handle options callback =
        (Returned (JBool False), nextTick (closed_task (supplied_callback handle options callback)) s)) \<and>
   (\<not> connected s \<and> rejects_options handle options \<longrightarrow>
      send s message handle options callback =
        (Threw (ERR_INVALID_ARG_TYPE ''options'' ''object'' options), s)) \<and>
   (\<forall>e. fst (send s message handle options callback) = Threw e \<and>
        e \<noteq> ERR_INVALID_ARG_TYPE ''options'' ''object'' options \<longrightarrow> connected s) \<and>
   (connected s \<and> \<not> rejects_options handle options \<longrightarrow>
      send s JUndefined handle options callback = (Threw (ERR_MISSING_ARGS ''message''), s))"
proof -
  have a: "\<not> connected s \<Longrightarrow> \<forall>e. fst (send s message handle options callback) = Threw e \<longrightarrow>
      e = ERR_INVALID_ARG_TYPE ''options'' ''object'' options"
    by (simp add: send_not_connected)
  have b: "connected s \<Longrightarrow> \<not> rejects_options handle options \<Longrightarrow>
      send s JUndefined handle options callback = (Threw (ERR_MISSING_ARGS ''message''), s)"
    by (simp add: send_connected) (simp add: internal_send_def)
  have c: "\<not> connected s \<Longrightarrow> send s message handle options callback =
     (if rejects_options handle options
      then (Threw (ERR_INVALID_ARG_TYPE ''options'' ''object'' options), s)
      else (Returned (JBool False),
            nextTick (closed_task (supplied_callback handle options callback)) s))"
    by (rule send_not_connected)
  show ?thesis
  proof (intro conjI impI allI)
    assume "\<not> connected s \<and> \<not> rejects_options handle options"
    then show "send s message handle options callback =
        (Returned (JBool False), nextTick (closed_task (supplied_callback handle options callback)) s)"
      using c by simp
  next
    assume "\<not> connected s \<and> rejects_options handle options"
    then show "send s message handle options callback =
        (Threw (ERR_INVALID_ARG_TYPE ''options'' ''object'' options), s)"
      using c by simp
  next
    fix e
    assume "fst (send s message handle options callback) = Threw e \<and>
        e \<noteq> ERR_INVALID_ARG_TYPE ''options'' ''object'' options"
    then show "connected s" using a by blast
  next
    assume "connected s \<and> \<not> rejects_options handle options"
    then show "send s JUndefined handle options callback = (Threw (ERR_MISSING_ARGS ''message''), s)"
      using b by blast
  qed
qed

theorem validation_only_while_connected_witness:
  "send example_disconnected JUndefined JUndefined JUndefined JUndefined =
     (Returned (JBool False), nextTick (TEmitError ERR_IPC_CHANNEL_CLOSED) example_disconnected) \<and>
   send example_disconnected (JSymbol 1) (JNum 3) (JObj [(''keepOpen'', JStr ''yes'')]) (JFunc 7) =
     (Returned (JBool False),
      nextTick (TCallback (JFunc 7) (Some ERR_IPC_CHANNEL_CLOSED)) example_disconnected) \<and>
   send example_disconnected JUndefined JUndefined (JArr []) JUndefined =
     (Threw (ERR_INVALID_ARG_TYPE ''options'' ''object'' (JArr [])), example_disconnected) \<and>
   send example_target JUndefined JUndefined JUndefined JUndefined =
     (Threw (ERR_MISSING_ARGS ''message''), example_target)"
proof -
  have d: "\<not> connected example_disconnected" "connected example_target"
    by (simp_all add: example_disconnected_eq eval_defs)
  have r: "\<not> rejects_options JUndefined JUndefined"
    "\<not> rejects_options (JNum 3) (JObj [(''keepOpen'', JStr ''yes'')])"
    "rejects_options JUndefined (JArr [])"
    by (simp_all add: rejects_options_def validateObject_def)
  have c: "closed_task (supplied_callback JUndefined JUndefined JUndefined) = TEmitError ERR_IPC_CHANNEL_CLOSED"
    "closed_task (supplied_callback (JNum 3) (JObj [(''keepOpen'', JStr ''yes'')]) (JFunc 7)) =
       TCallback (JFunc 7) (Some ERR_IPC_CHANNEL_CLOSED)"
    by (simp_all add: supplied_callback_def closed_task_def)
  note t1 = validation_only_while_connected[of example_disconnected JUndefined JUndefined JUndefined JUndefined,
      THEN conjunct1, rule_format, OF conjI[OF d(1) r(1)]]
  note t2 = validation_only_while_connected[of example_disconnected "JNum 3"
      "JObj [(''keepOpen'', JStr ''yes'')]" "JSymbol 1" "JFunc 7",
      THEN conjunct1, rule_format, OF conjI[OF d(1) r(2)]]
  note t3 = validation_only_while_connected[of example_disconnected JUndefined "JArr []" JUndefined JUndefined,
      THEN conjunct2, THEN conjunct1, rule_format, OF conjI[OF d(1) r(3)]]
  note t4 = validation_only_while_connected[of example_target JUndefined JUndefined JUndefined JUndefined,
      THEN conjunct2, THEN conjunct2, THEN conjunct2, rule_format, OF conjI[OF d(2) r(1)]]
  show ?thesis using t1 t2 t3 t4 by (simp only: c simp_thms)
qed

section \<open>Sending while an acknowledgment is awaited\<close>

lemma internal_send_awaiting_throws:
  assumes "connected s \<or> channel s \<or> \<not> assertions s" and "handleQueue s = Some q"
    and "sendable message"
    and "truthy handle \<longrightarrow> handle_tag s handle \<noteq> None"
    and "truthy handle \<or> \<not> is_handle_reply message"
  shows "internal_send s message handle options callback = (Threw TypeError, s)"
proof (cases "truthy handle")
  case True
  then obtain t where "handle_tag s handle = Some t" using assms(4) by auto
  then show ?thesis
    using assms(1,2,3) True
    by (auto simp: internal_send_def Let_def enqueue_def ArrayPrototypePush_def sendable_def)
next
  case False
  then show ?thesis
    using assms(1,2,3,5)
    by (auto simp: internal_send_def Let_def enqueue_def ArrayPrototypePush_def sendable_def)
qed

text \<open>
  C1 (where the code departs from it).  While an acknowledgment is awaited
  (\<^verbatim>\<open>_handleQueue\<close> is set) on a connected channel, a call of \<^verbatim>\<open>send\<close> whose arguments pass the validation (the options, the
  message, the class of the handle), other than a reply \<^verbatim>\<open>NODE_HANDLE_ACK\<close> or
  \<^verbatim>\<open>NODE_HANDLE_NACK\<close> without a handle, reaches one of the two calls
  \<^verbatim>\<open>ArrayPrototypePush(this._handleQueue, ...)\<close> and throws \<^verbatim>\<open>TypeError\<close> there: the
  message is neither appended to the backlog nor written, and the state is as it was.
\<close>

theorem send_while_awaiting_acknowledgment_throws:
  assumes "connected s" and "handleQueue s = Some q"
    and "\<not> rejects_options handle options" and "sendable message"
    and "truthy (supplied_handle handle) \<longrightarrow> handle_tag s (supplied_handle handle) \<noteq> None"
    and "truthy (supplied_handle handle) \<or> \<not> is_handle_reply message"
  shows "send s message handle options callback = (Threw TypeError, s)"
proof -
  have "send s message handle options callback =
      internal_send s message (supplied_handle handle)
        (spread_options (if typeof handle = ''function'' \<or> typeof options = ''function''
                         then JUndefined else options))
        (supplied_callback handle options callback)"
    using send_connected[OF assms(1)] assms(3) by (simp add: supplied_handle_def)
  then show ?thesis
    using internal_send_awaiting_throws[OF _ assms(2,4,5,6)] assms(1) by simp
qed

theorem send_while_awaiting_acknowledgment_throws_witness:
  "example_awaiting = snd (send example_target (JStr ''a'') (JRef 0) JUndefined JUndefined) \<and>
   handleQueue example_awaiting = Some [] \<and>
   send example_awaiting (JStr ''b'') JUndefined JUndefined JUndefined = (Threw TypeError, example_awaiting) \<and>
   send example_awaiting (JStr ''c'') (JRef 2) JUndefined JUndefined = (Threw TypeError, example_awaiting)"
proof -
  have a: "connected example_awaiting" "handleQueue example_awaiting = Some []"
    by (simp_all add: example_awaiting_eq eval_defs)
  have r: "\<not> rejects_options JUndefined JUndefined" "\<not> rejects_options (JRef 2) JUndefined"
    by (simp_all add: rejects_options_def)
  have m: "sendable (JStr ''b'')" "sendable (JStr ''c'')"
    by (simp_all add: sendable_def)
  have h: "truthy (supplied_handle JUndefined) \<longrightarrow> handle_tag example_awaiting (supplied_handle JUndefined) \<noteq> None"
    "truthy (supplied_handle (JRef 2)) \<longrightarrow> handle_tag example_awaiting (supplied_handle (JRef 2)) \<noteq> None"
    by (simp_all add: supplied_handle_def example_awaiting_eq eval_defs)
  have p: "truthy (supplied_handle JUndefined) \<or> \<not> is_handle_reply (JStr ''b'')"
    "truthy (supplied_handle (JRef 2)) \<or> \<not> is_handle_reply (JStr ''c'')"
    by (simp_all add: supplied_handle_def is_handle_reply_def)
  note t1 = send_while_awaiting_acknowledgment_throws[OF a r(1) m(1) h(1) p(1), of JUndefined]
  note t2 = send_while_awaiting_acknowledgment_throws[OF a r(2) m(2) h(2) p(2), of JUndefined]
  show ?thesis using t1 t2 a(2) by (simp add: example_awaiting_def)
qed

section \<open>What \<^verbatim>\<open>send\<close> returns\<close>


lemma write_message_plain_returns:
  assumes "\<not> truthy h" and "\<not> nullish opts"
  shows "fst (write_message s None m h opts cb) = Returned (JBool (w_queue (transport s (writes s)) < 65536 * 2))"
  using assms unfolding write_message_def Let_def
  by (simp add: refCounted_def effect_def nextTick_def Let_def)





section \<open>The connected flag\<close>

lemma connected_send: "connected (snd (send s m h opts cb)) = connected s"
proof (cases "connected s")
  case True
  obtain r s' where a: "internal_send s m
             (if typeof h = ''function'' then JUndefined else h)
             (spread_options (if typeof h = ''function'' \<or> typeof opts = ''function''
                              then JUndefined else opts))
             (supplied_callback h opts cb) = (r, s')"
    by (cases "internal_send s m
             (if typeof h = ''function'' then JUndefined else h)
             (spread_options (if typeof h = ''function'' \<or> typeof opts = ''function''
                              then JUndefined else opts))
             (supplied_callback h opts cb)")
  show ?thesis using True a internal_send_frame[OF a]
    by (simp add: send_connected send_frame_def)
next
  case False
  then show ?thesis by (simp add: send_not_connected nextTick_def)
qed

lemma connected_disconnect: "\<not> connected (snd (disconnect s))"
proof (cases "connected s")
  case True
  obtain r s' where a: "internal_disconnect (s\<lparr>connected := False\<rparr>) = (r, s')"
    by (cases "internal_disconnect (s\<lparr>connected := False\<rparr>)")
  show ?thesis using True a internal_disconnect_frame[OF a]
    by (simp add: disconnect_def Let_def handler_frame_def)
next
  case False
  then show ?thesis by (simp add: disconnect_def emit_error_def effect_def)
qed

lemma connected_deliver: "connected (deliver s ms) = connected s"
  by (induction ms arbitrary: s) (simp_all add: handleMessage_def nextTick_def)

lemma connected_onread: "connected (snd (onread s recv c)) \<Longrightarrow> connected s"
proof (cases c)
  case (Data ms b)
  assume "connected (snd (onread s recv c))"
  then show ?thesis using Data
    by (simp add: onread_def connected_deliver split: if_splits)
next
  case EOF
  assume a: "connected (snd (onread s recv c))"
  obtain r s1 where d: "disconnect (s\<lparr>buffering := False\<rparr>) = (r, s1)"
    by (cases "disconnect (s\<lparr>buffering := False\<rparr>)")
  have "\<not> connected s1" using connected_disconnect[of "s\<lparr>buffering := False\<rparr>"] d by simp
  then show ?thesis using a EOF d
    by (cases r) (auto simp: onread_def maybeClose_def effect_def Let_def split: if_splits)
qed

lemma connected_target_emit:
  assumes "target_emit s ev m h = (r, s')"
  shows "connected s' = connected s"
proof (cases "ev = ''internalMessage''")
  case True
  let ?s0 = "effect (Emit ev m h) s"
  obtain r1 s1 where a: "internalMessage_handler ?s0 m h = (r1, s1)"
    by (cases "internalMessage_handler ?s0 m h")
  have c1: "connected s1 = connected s"
    using internalMessage_handler_frame[OF a] by (simp add: handler_frame_def effect_def)
  show ?thesis
  proof (cases r1)
    case (Threw e)
    then show ?thesis using assms True a c1 by (simp add: target_emit_def Let_def)
  next
    case (Returned u)
    then have "s' = fold finish (once_internalMessage ?s0)
        (s1\<lparr>once_internalMessage := filter (\<lambda>k. k \<notin> set (once_internalMessage ?s0)) (once_internalMessage s1)\<rparr>)"
      using assms True a by (simp add: target_emit_def Let_def)
    then show ?thesis
      using fold_finish_frame[of "s1\<lparr>once_internalMessage := filter (\<lambda>k. k \<notin> set (once_internalMessage ?s0)) (once_internalMessage s1)\<rparr>" "once_internalMessage ?s0"] c1
      by (simp add: handler_frame_def)
  qed
next
  case False
  then show ?thesis
    using assms fold_finish_frame[of "(effect (Emit ev m h) s)\<lparr>once_message := []\<rparr>" "once_message (effect (Emit ev m h) s)"]
    by (auto simp: target_emit_def Let_def handler_frame_def effect_def split: if_splits)
qed

lemma connected_emit_each: "emit_each s ms = (r, s') \<Longrightarrow> connected s' = connected s"
proof (induction ms arbitrary: s)
  case Nil
  then show ?case by simp
next
  case (Cons m ms)
  obtain r1 s1 where a: "target_emit s (fst m) (fst (snd m)) (snd (snd m)) = (r1, s1)"
    by (cases "target_emit s (fst m) (fst (snd m)) (snd (snd m))")
  show ?case using Cons a connected_target_emit[OF a] by (cases r1) auto
qed

lemma connected_tick: "connected (snd (tick s)) = connected s"
proof (cases "ticks s")
  case Nil
  then show ?thesis by (simp add: tick_def)
next
  case (Cons t ts)
  let ?s = "s\<lparr>ticks := ts\<rparr>"
  have "connected (snd (run_task ?s t)) = connected ?s"
  proof (cases t)
    case (TEmit ev m h)
    obtain r s' where a: "emit ?s ev m h = (r, s')" by (cases "emit ?s ev m h")
    then have "s' = ?s \<or> s' = ?s\<lparr>kPendingMessages := kPendingMessages ?s @ [(ev, m, h)]\<rparr> \<or>
        target_emit ?s ev m h = (r, s')"
      by (auto simp: emit_def split: if_splits)
    then show ?thesis using TEmit a connected_target_emit[of ?s ev m h r s']
      by (auto simp: run_task_def)
  next
    case TFlush
    obtain r s' where a: "flush ?s = (r, s')" by (cases "flush ?s")
    obtain r1 s1 where e: "emit_each ?s (kPendingMessages ?s) = (r1, s1)"
      by (cases "emit_each ?s (kPendingMessages ?s)")
    have "connected s' = connected ?s"
      using a e connected_emit_each[OF e]
      by (cases r1) (auto simp: flush_def split: if_splits)
    then show ?thesis using TFlush a by (simp add: run_task_def)
  qed (simp_all add: run_task_def emit_error_def effect_def finish_def)
  then show ?thesis using Cons by (simp add: tick_def)
qed

lemma connected_step: "connected (step s a) \<Longrightarrow> connected s"
proof (cases a)
  case (Read recv c)
  assume "connected (step s a)"
  then show ?thesis using Read connected_onread[of s recv c] by (simp add: step_def)
next
  case Disconnect
  assume "connected (step s a)"
  then show ?thesis using Disconnect connected_disconnect[of s] by (simp add: step_def)
qed (simp_all add: step_def connected_send connected_tick on_def off_def newListener_handler_def
      nextTick_def write_complete_def unrefCounted_def got_ready_def handleMessage_def ref_def
      unref_def effect_def Let_def split: prod.splits if_splits)

lemma connected_steps: "\<not> connected s \<Longrightarrow> \<not> connected (foldl step s as)"
proof (induction as arbitrary: s)
  case Nil
  then show ?case by simp
next
  case (Cons a as)
  have "\<not> connected (step s a)" using Cons.prems connected_step by blast
  from Cons.IH[OF this] show ?case by simp
qed

section \<open>Disconnecting\<close>

lemma internal_disconnect_live:
  assumes "channel s \<or> \<not> assertions s"
  shows "internal_disconnect s =
     (Returned (),
      (if buffering s
       then s\<lparr>channel := False, kChannelHandle := False, pendingMessage := None,
              once_message := once_message s @ [next_finish s],
              once_internalMessage := once_internalMessage s @ [next_finish s],
              next_finish := Suc (next_finish s),
              ticks := ticks s @ [TFlush, TFlush],
              trace := trace s @ (case pendingMessage s of None \<Rightarrow> [] | Some p \<Rightarrow> [HandleClose (p_handle p)])\<rparr>
       else s\<lparr>channel := False, kChannelHandle := False, pendingMessage := None,
              next_finish := Suc (next_finish s),
              ticks := ticks s @ [TFinish (next_finish s)],
              trace := trace s @ (case pendingMessage s of None \<Rightarrow> [] | Some p \<Rightarrow> [HandleClose (p_handle p)])\<rparr>))"
  using assms
  by (cases "pendingMessage s")
     (auto simp: internal_disconnect_def Let_def closePendingHandle_def effect_def nextTick_def)

lemma internal_send_plain:
  assumes "handleQueue s = None" and "connected s \<or> channel s \<or> \<not> assertions s"
    and "\<not> truthy h" and "sendable m"
  shows "internal_send s m h opts cb = write_message s None m h (legacy_options opts) cb"
  using assms by (auto simp: internal_send_def Let_def sendable_def)

lemma drain_plain:
  assumes "handleQueue s = None" and "channel s" and "list_all plain_entry q"
  shows "\<exists>s'. drain s q = (Returned (), s') \<and> send_frame s s' \<and>
           wire s' = wire s @ written (transport s) (writes s) q \<and>
           handleQueue s' = None \<and> pendingMessage s' = pendingMessage s"
  using assms
proof (induction q arbitrary: s)
  case Nil
  then show ?case by simp
next
  case (Cons a q)
  have p: "\<not> truthy (q_handle a)" "sendable (q_message a)" "\<not> nullish (legacy_options (q_options a))"
    using Cons.prems(3) by (simp_all add: plain_entry_def)
  let ?w = "write_message s None (q_message a) (q_handle a) (legacy_options (q_options a)) (q_callback a)"
  have e: "internal_send s (q_message a) (q_handle a) (q_options a) (q_callback a) = ?w"
    using internal_send_plain[OF Cons.prems(1) _ p(1,2)] Cons.prems(2) by simp
  obtain r s1 where w: "?w = (r, s1)" by (cases ?w)
  have r: "r = Returned (JBool (w_queue (transport s (writes s)) < 65536 * 2))"
    using write_message_plain_returns[OF p(1,3), of s "q_message a" "q_callback a"] w by simp
  have f: "send_frame s s1" using write_message_frame[OF w] .
  have k: "handleQueue s1 = None" "pendingMessage s1 = pendingMessage s"
    using write_message_plain[OF w p(1)] Cons.prems(1) by simp_all
  have v: "wire s1 = wire s @ [Write (q_message a) (q_handle a) (w_err (transport s (writes s)))]"
    "writes s1 = Suc (writes s)" "transport s1 = transport s"
    using write_message_writes(1-3)[OF w] by simp_all
  have c: "channel s1" using f Cons.prems(2) by (simp add: send_frame_def)
  have l: "list_all plain_entry q" using Cons.prems(3) by simp
  from Cons.IH[OF k(1) c l] obtain s' where
    d: "drain s1 q = (Returned (), s')" "send_frame s1 s'"
      "wire s' = wire s1 @ written (transport s1) (writes s1) q"
      "handleQueue s' = None" "pendingMessage s' = pendingMessage s1"
    by blast
  have "drain s (a # q) = (Returned (), s')" using e w r d(1) by simp
  moreover have "send_frame s s'" using f d(2) by (rule send_frame_trans)
  moreover have "wire s' = wire s @ written (transport s) (writes s) (a # q)"
    using d(3) v by simp
  ultimately show ?case using d(4,5) k(2) by (intro exI[where x=s']) simp
qed

lemma on_handle_reply_settled:
  assumes "pendingMessage s = Some p" and "handleQueue s = Some q"
    and "ack \<or> retransmissions p = MAX_HANDLE_RETRANSMISSIONS"
  shows "on_handle_reply s ack =
     (case drain (s\<lparr>pendingMessage := None,
                     trace := trace s @ HandleClose (p_handle p) #
                       (if ack then []
                        else [EmitWarning ''Handle did not reach the receiving process correctly''
                                          ''SentHandleNotReceivedWarning'']),
                     handleQueue := None\<rparr>) q of
        (Threw e, s4) \<Rightarrow> (Threw e, s4)
      | (Returned u, s4) \<Rightarrow>
          if \<not> connected s4 \<and> channel s4 \<and> handleQueue s4 = None
          then internal_disconnect s4 else (Returned (), s4))"
proof -
  have sp: "settle_pending s ack =
      s\<lparr>pendingMessage := None,
        trace := trace s @ HandleClose (p_handle p) #
          (if ack then []
           else [EmitWarning ''Handle did not reach the receiving process correctly''
                             ''SentHandleNotReceivedWarning''])\<rparr>"
    using assms(1,3)
    by (auto simp: settle_pending_def closePendingHandle_def effect_def Let_def)
  show ?thesis
    unfolding on_handle_reply_def sp Let_def using assms(2) by simp
qed

lemma acknowledged_teardown:
  assumes "\<not> connected s" and "channel s" and "handleQueue s = Some q"
    and "pendingMessage s = Some p" and "list_all plain_entry q"
  shows "\<exists>s'. on_handle_reply s True = (Returned (), s') \<and>
           wire s' = wire s @ written (transport s) (writes s) q \<and>
           trace s' \<noteq> trace s \<and> hd (drop (length (trace s)) (trace s')) = HandleClose (p_handle p) \<and>
           \<not> channel s' \<and> \<not> kChannelHandle s' \<and> handleQueue s' = None \<and> pendingMessage s' = None \<and>
           (if buffering s
            then once_message s' = once_message s @ [next_finish s] \<and>
                 once_internalMessage s' = once_internalMessage s @ [next_finish s]
            else ticks s' \<noteq> [] \<and> last (ticks s') = TFinish (next_finish s))"
proof -
  let ?s0 = "s\<lparr>pendingMessage := None, trace := trace s @ [HandleClose (p_handle p)], handleQueue := None\<rparr>"
  have e: "on_handle_reply s True =
     (case drain ?s0 q of
        (Threw e, s4) \<Rightarrow> (Threw e, s4)
      | (Returned u, s4) \<Rightarrow>
          if \<not> connected s4 \<and> channel s4 \<and> handleQueue s4 = None
          then internal_disconnect s4 else (Returned (), s4))"
    using on_handle_reply_settled[OF assms(4,3), of True] by simp
  have "handleQueue ?s0 = None" "channel ?s0" using assms(2) by simp_all
  from drain_plain[OF this assms(5)] obtain s4 where
    d: "drain ?s0 q = (Returned (), s4)" "send_frame ?s0 s4"
      "wire s4 = wire ?s0 @ written (transport ?s0) (writes ?s0) q"
      "handleQueue s4 = None" "pendingMessage s4 = pendingMessage ?s0"
    by blast
  have f: "\<not> connected s4" "channel s4" "buffering s4 = buffering s" "next_finish s4 = next_finish s"
    "once_message s4 = once_message s" "once_internalMessage s4 = once_internalMessage s"
    using d(2) assms(1,2) by (simp_all add: send_frame_def)
  have w: "wire s4 = wire s @ written (transport s) (writes s) q"
    using d(3) by (simp add: trace_defs)
  have t: "\<exists>es. trace s4 = trace s @ HandleClose (p_handle p) # es"
  proof -
    have "\<And>s s' q. drain s q = (Returned (), s') \<Longrightarrow> list_all plain_entry q \<Longrightarrow>
            handleQueue s = None \<Longrightarrow> channel s \<Longrightarrow> \<exists>es. trace s' = trace s @ es"
    proof -
      fix s s' :: target and q
      show "drain s q = (Returned (), s') \<Longrightarrow> list_all plain_entry q \<Longrightarrow>
            handleQueue s = None \<Longrightarrow> channel s \<Longrightarrow> \<exists>es. trace s' = trace s @ es"
      proof (induction q arbitrary: s)
        case Nil
        then show ?case by simp
      next
        case (Cons a q)
        have p: "\<not> truthy (q_handle a)" "sendable (q_message a)" "\<not> nullish (legacy_options (q_options a))"
          using Cons.prems(2) by (simp_all add: plain_entry_def)
        let ?w = "write_message s None (q_message a) (q_handle a) (legacy_options (q_options a)) (q_callback a)"
        have e: "internal_send s (q_message a) (q_handle a) (q_options a) (q_callback a) = ?w"
          using internal_send_plain[OF Cons.prems(3) _ p(1,2)] Cons.prems(4) by simp
        obtain r s1 where w: "?w = (r, s1)" by (cases ?w)
        have r: "r = Returned (JBool (w_queue (transport s (writes s)) < 65536 * 2))"
          using write_message_plain_returns[OF p(1,3), of s "q_message a" "q_callback a"] w by simp
        have x: "\<exists>es. trace s1 = trace s @ es"
          using w p(1) unfolding write_message_def Let_def
          by (auto simp: refCounted_def effect_def nextTick_def Let_def split: if_splits)
        have k: "handleQueue s1 = None" using write_message_plain(1)[OF w p(1)] Cons.prems(3) by simp
        have c: "channel s1" using write_message_frame[OF w] Cons.prems(4) by (simp add: send_frame_def)
        have "drain s1 q = (Returned (), s')" using Cons.prems(1) e w r by simp
        from Cons.IH[OF this _ k c] Cons.prems(2) x show ?case by auto
      qed
    qed
    from this[OF d(1) assms(5)] assms(2) show ?thesis by auto
  qed
  have l: "channel s4 \<or> \<not> assertions s4" using f(2) by simp
  have o: "on_handle_reply s True = internal_disconnect s4"
    using e d(1,4) f(1,2) by simp
  obtain es where es: "trace s4 = trace s @ HandleClose (p_handle p) # es" using t by blast
  show ?thesis
    unfolding o internal_disconnect_live[OF l]
    using w f d(4,5) es
    by (cases "buffering s") (simp_all add: trace_defs)
qed

lemma acknowledgment_handled:
  assumes "get_prop message ''cmd'' = JStr ''NODE_HANDLE_ACK''"
  shows "internalMessage_handler s message handle = on_handle_reply s True"
proof -
  have "\<not> nullish message" using assms by (auto simp: nullish_def)
  then show ?thesis using assms by (simp add: internalMessage_handler_def)
qed

text \<open>
  C4 (as amended).  Once \<open>connected\<close> is false no step of the channel makes it true again,
  and \<^verbatim>\<open>disconnect()\<close> always leaves it false.  The first \<^verbatim>\<open>disconnect()\<close> (on a connected
  target with its channel) while no acknowledgment is awaited (\<^verbatim>\<open>_handleQueue\<close> is null)
  runs \<^verbatim>\<open>_disconnect\<close> at once: the channel reference is dropped, a pending handle is
  closed, and \<^verbatim>\<open>finish\<close> is scheduled for the next tick, or for the end of the read in
  progress.  While one is awaited it only clears \<open>connected\<close>; when the acknowledgment
  of the pending handle then comes, the \<^verbatim>\<open>"internalMessage"\<close> handler closes that handle,
  writes the messages of \<^verbatim>\<open>_handleQueue\<close> (plain ones) in their order, and only then
  runs \<^verbatim>\<open>_disconnect\<close>, in the same call.
  \<^verbatim>\<open>disconnect()\<close> on a target that is not connected emits \<^verbatim>\<open>ERR_IPC_DISCONNECTED\<close> as
  \<^verbatim>\<open>"error"\<close> and does nothing else: with a listener for \<^verbatim>\<open>"error"\<close> it returns, with none
  the emitter throws the error out of \<^verbatim>\<open>disconnect()\<close>; the channel is closed by
  \<^verbatim>\<open>finish\<close> alone, once for each call of \<^verbatim>\<open>_disconnect\<close>.
\<close>

theorem disconnect_lifecycle:
  "(\<not> connected s \<longrightarrow> \<not> connected (foldl step s actions)) \<and>
   \<not> connected (snd (disconnect s)) \<and>
   (connected s \<and> channel s \<and> handleQueue s = None \<longrightarrow>
      disconnect s =
        (Returned (),
         (if buffering s
          then s\<lparr>connected := False, channel := False, kChannelHandle := False, pendingMessage := None,
                 once_message := once_message s @ [next_finish s],
                 once_internalMessage := once_internalMessage s @ [next_finish s],
                 next_finish := Suc (next_finish s),
                 ticks := ticks s @ [TFlush, TFlush],
                 trace := trace s @ (case pendingMessage s of None \<Rightarrow> [] | Some p \<Rightarrow> [HandleClose (p_handle p)])\<rparr>
          else s\<lparr>connected := False, channel := False, kChannelHandle := False, pendingMessage := None,
                 next_finish := Suc (next_finish s),
                 ticks := ticks s @ [TFinish (next_finish s)],
                 trace := trace s @ (case pendingMessage s of None \<Rightarrow> [] | Some p \<Rightarrow> [HandleClose (p_handle p)])\<rparr>))) \<and>
   (connected s \<and> handleQueue s \<noteq> None \<longrightarrow> disconnect s = (Returned (), s\<lparr>connected := False\<rparr>)) \<and>
   (\<not> connected s \<and> channel s \<and> handleQueue s = Some q \<and> pendingMessage s = Some p \<and>
    list_all plain_entry q \<and> get_prop message ''cmd'' = JStr ''NODE_HANDLE_ACK'' \<longrightarrow>
      (\<exists>s'. internalMessage_handler s message handle = (Returned (), s') \<and>
            wire s' = wire s @ written (transport s) (writes s) q \<and>
            trace s' \<noteq> trace s \<and> hd (drop (length (trace s)) (trace s')) = HandleClose (p_handle p) \<and>
            \<not> channel s' \<and> \<not> kChannelHandle s' \<and> handleQueue s' = None \<and> pendingMessage s' = None \<and>
            (if buffering s
             then once_message s' = once_message s @ [next_finish s] \<and>
                  once_internalMessage s' = once_internalMessage s @ [next_finish s]
             else ticks s' \<noteq> [] \<and> last (ticks s') = TFinish (next_finish s)))) \<and>
   (\<not> connected s \<longrightarrow>
      disconnect s =
        (if error_listeners s = 0 then (Threw ERR_IPC_DISCONNECTED, s)
         else (Returned (), effect (EmitError ERR_IPC_DISCONNECTED) s))) \<and>
   finish k t = (if k \<in> set (fired t) then t
                 else t\<lparr>fired := k # fired t, trace := trace t @ [ChannelClose, EmitDisconnect]\<rparr>)"
proof -
  have c1: "\<not> connected s \<longrightarrow> \<not> connected (foldl step s actions)"
    using connected_steps by blast
  have c2: "\<not> connected (snd (disconnect s))" by (rule connected_disconnect)
  have c3: "connected s \<and> channel s \<and> handleQueue s = None \<longrightarrow>
      disconnect s =
        (Returned (),
         (if buffering s
          then s\<lparr>connected := False, channel := False, kChannelHandle := False, pendingMessage := None,
                 once_message := once_message s @ [next_finish s],
                 once_internalMessage := once_internalMessage s @ [next_finish s],
                 next_finish := Suc (next_finish s),
                 ticks := ticks s @ [TFlush, TFlush],
                 trace := trace s @ (case pendingMessage s of None \<Rightarrow> [] | Some p \<Rightarrow> [HandleClose (p_handle p)])\<rparr>
          else s\<lparr>connected := False, channel := False, kChannelHandle := False, pendingMessage := None,
                 next_finish := Suc (next_finish s),
                 ticks := ticks s @ [TFinish (next_finish s)],
                 trace := trace s @ (case pendingMessage s of None \<Rightarrow> [] | Some p \<Rightarrow> [HandleClose (p_handle p)])\<rparr>))"
  proof
    assume a: "connected s \<and> channel s \<and> handleQueue s = None"
    then have "channel (s\<lparr>connected := False\<rparr>) \<or> \<not> assertions (s\<lparr>connected := False\<rparr>)" by simp
    from internal_disconnect_live[OF this] a
    show "disconnect s =
        (Returned (),
         (if buffering s
          then s\<lparr>connected := False, channel := False, kChannelHandle := False, pendingMessage := None,
                 once_message := once_message s @ [next_finish s],
                 once_internalMessage := once_internalMessage s @ [next_finish s],
                 next_finish := Suc (next_finish s),
                 ticks := ticks s @ [TFlush, TFlush],
                 trace := trace s @ (case pendingMessage s of None \<Rightarrow> [] | Some p \<Rightarrow> [HandleClose (p_handle p)])\<rparr>
          else s\<lparr>connected := False, channel := False, kChannelHandle := False, pendingMessage := None,
                 next_finish := Suc (next_finish s),
                 ticks := ticks s @ [TFinish (next_finish s)],
                 trace := trace s @ (case pendingMessage s of None \<Rightarrow> [] | Some p \<Rightarrow> [HandleClose (p_handle p)])\<rparr>))"
      by (simp add: disconnect_def Let_def)
  qed
  have c4: "connected s \<and> handleQueue s \<noteq> None \<longrightarrow> disconnect s = (Returned (), s\<lparr>connected := False\<rparr>)"
    by (auto simp: disconnect_def Let_def)
  have c5: "\<not> connected s \<and> channel s \<and> handleQueue s = Some q \<and> pendingMessage s = Some p \<and>
    list_all plain_entry q \<and> get_prop message ''cmd'' = JStr ''NODE_HANDLE_ACK'' \<longrightarrow>
      (\<exists>s'. internalMessage_handler s message handle = (Returned (), s') \<and>
            wire s' = wire s @ written (transport s) (writes s) q \<and>
            trace s' \<noteq> trace s \<and> hd (drop (length (trace s)) (trace s')) = HandleClose (p_handle p) \<and>
            \<not> channel s' \<and> \<not> kChannelHandle s' \<and> handleQueue s' = None \<and> pendingMessage s' = None \<and>
            (if buffering s
             then once_message s' = once_message s @ [next_finish s] \<and>
                  once_internalMessage s' = once_internalMessage s @ [next_finish s]
             else ticks s' \<noteq> [] \<and> last (ticks s') = TFinish (next_finish s)))"
  proof
    assume a: "\<not> connected s \<and> channel s \<and> handleQueue s = Some q \<and> pendingMessage s = Some p \<and>
      list_all plain_entry q \<and> get_prop message ''cmd'' = JStr ''NODE_HANDLE_ACK''"
    then have h: "internalMessage_handler s message handle = on_handle_reply s True"
      using acknowledgment_handled by blast
    have "\<not> connected s" "channel s" "handleQueue s = Some q" "pendingMessage s = Some p"
      "list_all plain_entry q"
      using a by simp_all
    from acknowledged_teardown[OF this]
    show "\<exists>s'. internalMessage_handler s message handle = (Returned (), s') \<and>
            wire s' = wire s @ written (transport s) (writes s) q \<and>
            trace s' \<noteq> trace s \<and> hd (drop (length (trace s)) (trace s')) = HandleClose (p_handle p) \<and>
            \<not> channel s' \<and> \<not> kChannelHandle s' \<and> handleQueue s' = None \<and> pendingMessage s' = None \<and>
            (if buffering s
             then once_message s' = once_message s @ [next_finish s] \<and>
                  once_internalMessage s' = once_internalMessage s @ [next_finish s]
             else ticks s' \<noteq> [] \<and> last (ticks s') = TFinish (next_finish s))"
      unfolding h .
  qed
  have c6: "\<not> connected s \<longrightarrow>
      disconnect s =
        (if error_listeners s = 0 then (Threw ERR_IPC_DISCONNECTED, s)
         else (Returned (), effect (EmitError ERR_IPC_DISCONNECTED) s))"
    by (simp add: disconnect_def emit_error_def)
  have c7: "finish k t = (if k \<in> set (fired t) then t
                 else t\<lparr>fired := k # fired t, trace := trace t @ [ChannelClose, EmitDisconnect]\<rparr>)"
    by (simp add: finish_def effect_def)
  show ?thesis
    by (rule conjI, rule c1, rule conjI, rule c2, rule conjI, rule c3, rule conjI, rule c4,
        rule conjI, rule c5, rule conjI, rule c6, rule c7)
qed

theorem disconnect_lifecycle_witness:
  "\<not> connected (foldl step example_disconnected
        [Send (JStr ''m'') JUndefined JUndefined JUndefined, On ''message'', Tick, Disconnect, Tick,
         Read JNull (Data [JStr ''x''] False), Read JNull EOF]) \<and>
   disconnect example_target =
     (Returned (), example_target\<lparr>connected := False, channel := False, kChannelHandle := False,
        pendingMessage := None, next_finish := 1, ticks := [TFinish 0], trace := []\<rparr>) \<and>
   disconnect example_awaiting = (Returned (), example_awaiting\<lparr>connected := False\<rparr>) \<and>
   fst (internalMessage_handler (example_awaiting\<lparr>connected := False\<rparr>)
          (JObj [(''cmd'', JStr ''NODE_HANDLE_ACK'')]) JUndefined) = Returned () \<and>
   \<not> channel (snd (internalMessage_handler (example_awaiting\<lparr>connected := False\<rparr>)
          (JObj [(''cmd'', JStr ''NODE_HANDLE_ACK'')]) JUndefined)) \<and>
   wire (snd (internalMessage_handler
          (example_awaiting\<lparr>connected := False,
             handleQueue := Some [\<lparr>q_callback = JUndefined, q_handle = JNull,
                                   q_options = JObj [(''swallowErrors'', JBool False)],
                                   q_message = JStr ''b''\<rparr>]\<rparr>)
          (JObj [(''cmd'', JStr ''NODE_HANDLE_ACK'')]) JUndefined)) =
     [Write (envelope ''net.Socket'' (JStr ''a'')) (JRef 1) 0, Write (JStr ''b'') JNull 0] \<and>
   last (ticks (snd (internalMessage_handler
          (example_awaiting\<lparr>connected := False,
             handleQueue := Some [\<lparr>q_callback = JUndefined, q_handle = JNull,
                                   q_options = JObj [(''swallowErrors'', JBool False)],
                                   q_message = JStr ''b''\<rparr>]\<rparr>)
          (JObj [(''cmd'', JStr ''NODE_HANDLE_ACK'')]) JUndefined))) = TFinish 0 \<and>
   disconnect (on example_disconnected ''error'') =
     (Returned (), (on example_disconnected ''error'')\<lparr>trace := [EmitError ERR_IPC_DISCONNECTED]\<rparr>) \<and>
   trace (finish 0 example_disconnected) = [ChannelClose, EmitDisconnect]"
proof -
  let ?as = "[Send (JStr ''m'') JUndefined JUndefined JUndefined, On ''message'', Tick, Disconnect, Tick,
         Read JNull (Data [JStr ''x''] False), Read JNull EOF]"
  let ?ack = "JObj [(''cmd'', JStr ''NODE_HANDLE_ACK'')]"
  let ?b = "\<lparr>q_callback = JUndefined, q_handle = JNull,
             q_options = JObj [(''swallowErrors'', JBool False)], q_message = JStr ''b''\<rparr>"
  let ?p = "\<lparr>p_callback = JUndefined, p_message = envelope ''net.Socket'' (JStr ''a''),
             p_handle = JRef 1, p_options = JObj [(''swallowErrors'', JBool False)],
             retransmissions = 0\<rparr>"
  let ?sd = "example_awaiting\<lparr>connected := False\<rparr>"
  let ?sb = "example_awaiting\<lparr>connected := False, handleQueue := Some [?b]\<rparr>"
  let ?sl = "on example_disconnected ''error''"
  have d: "\<not> connected example_disconnected" "trace example_disconnected = []"
    "fired example_disconnected = []"
    by (simp_all add: example_disconnected_eq eval_defs)
  have e: "connected example_target \<and> channel example_target \<and> handleQueue example_target = None"
    "\<not> buffering example_target" "pendingMessage example_target = None"
    "next_finish example_target = 0" "ticks example_target = []" "trace example_target = []"
    by (simp_all add: eval_defs)
  have a: "connected example_awaiting \<and> handleQueue example_awaiting \<noteq> None"
    by (simp add: example_awaiting_eq eval_defs)
  have c: "get_prop ?ack ''cmd'' = JStr ''NODE_HANDLE_ACK''" by simp
  have pl: "list_all plain_entry []" "list_all plain_entry [?b]"
    by (simp_all add: plain_entry_def sendable_def legacy_options_def nullish_def)
  have sd: "\<not> connected ?sd" "channel ?sd" "handleQueue ?sd = Some []" "pendingMessage ?sd = Some ?p"
    "\<not> connected ?sb" "channel ?sb" "handleQueue ?sb = Some [?b]" "pendingMessage ?sb = Some ?p"
    by (simp_all add: example_awaiting_eq eval_defs)
  have v: "wire ?sb = [Write (envelope ''net.Socket'' (JStr ''a'')) (JRef 1) 0]"
    "transport ?sb = idle_transport" "writes ?sb = 1" "\<not> buffering ?sb" "next_finish ?sb = 0"
    by (simp_all add: example_awaiting_eq eval_defs trace_defs)
  have l: "\<not> connected ?sl" "error_listeners ?sl \<noteq> 0" "trace ?sl = []"
    by (simp_all add: on_def newListener_handler_def nextTick_def example_disconnected_eq eval_defs)
  note t = disconnect_lifecycle[of example_disconnected ?as _ _ _ _ 0 example_disconnected]
  note t1 = t[THEN conjunct1, rule_format, OF d(1)]
  note t7 = t[THEN conjunct2, THEN conjunct2, THEN conjunct2, THEN conjunct2, THEN conjunct2,
      THEN conjunct2]
  note t3 = disconnect_lifecycle[of example_target, THEN conjunct2, THEN conjunct2, THEN conjunct1,
      rule_format, OF e(1)]
  note t4 = disconnect_lifecycle[of example_awaiting, THEN conjunct2, THEN conjunct2, THEN conjunct2,
      THEN conjunct1, rule_format, OF a]
  note t5 = disconnect_lifecycle[of ?sd _ "[]" ?p ?ack JUndefined, THEN conjunct2, THEN conjunct2,
      THEN conjunct2, THEN conjunct2, THEN conjunct1, rule_format,
      OF conjI[OF sd(1) conjI[OF sd(2) conjI[OF sd(3) conjI[OF sd(4) conjI[OF pl(1) c]]]]]]
  note t5b = disconnect_lifecycle[of ?sb _ "[?b]" ?p ?ack JUndefined, THEN conjunct2, THEN conjunct2,
      THEN conjunct2, THEN conjunct2, THEN conjunct1, rule_format,
      OF conjI[OF sd(5) conjI[OF sd(6) conjI[OF sd(7) conjI[OF sd(8) conjI[OF pl(2) c]]]]]]
  note t6 = disconnect_lifecycle[of ?sl, THEN conjunct2, THEN conjunct2, THEN conjunct2,
      THEN conjunct2, THEN conjunct2, THEN conjunct1, rule_format, OF l(1)]
  from t5 obtain s' where s': "internalMessage_handler ?sd ?ack JUndefined = (Returned (), s')"
    "\<not> channel s'" by blast
  from t5b obtain s'' where s'': "internalMessage_handler ?sb ?ack JUndefined = (Returned (), s'')"
    "wire s'' = wire ?sb @ written (transport ?sb) (writes ?sb) [?b]"
    "if buffering ?sb
     then once_message s'' = once_message ?sb @ [next_finish ?sb] \<and>
          once_internalMessage s'' = once_internalMessage ?sb @ [next_finish ?sb]
     else ticks s'' \<noteq> [] \<and> last (ticks s'') = TFinish (next_finish ?sb)"
    by blast
  have w1: "fst (internalMessage_handler ?sd ?ack JUndefined) = Returned ()"
    "\<not> channel (snd (internalMessage_handler ?sd ?ack JUndefined))"
    using s' by simp_all
  have w2: "wire (snd (internalMessage_handler ?sb ?ack JUndefined)) =
      [Write (envelope ''net.Socket'' (JStr ''a'')) (JRef 1) 0, Write (JStr ''b'') JNull 0]"
    using s''(1,2) v(1,2,3) by (simp add: idle_transport_def)
  have w3: "last (ticks (snd (internalMessage_handler ?sb ?ack JUndefined))) = TFinish 0"
    using s''(1,3) v(4,5) by simp
  have w4: "disconnect example_target =
     (Returned (), example_target\<lparr>connected := False, channel := False, kChannelHandle := False,
        pendingMessage := None, next_finish := 1, ticks := [TFinish 0], trace := []\<rparr>)"
    using t3 e(2-6) by simp
  have w5: "disconnect ?sl = (Returned (), ?sl\<lparr>trace := [EmitError ERR_IPC_DISCONNECTED]\<rparr>)"
    using t6 l(2,3) by (simp add: effect_def)
  have w6: "trace (finish 0 example_disconnected) = [ChannelClose, EmitDisconnect]"
    using t7 d(2,3) by simp
  show ?thesis
    by (rule conjI, rule t1, rule conjI, rule w4, rule conjI, rule t4, rule conjI, rule w1(1),
        rule conjI, rule w1(2), rule conjI, rule w2, rule conjI, rule w3, rule conjI, rule w5, rule w6)
qed

text \<open>
  The claim as stated has the second \<^verbatim>\<open>disconnect()\<close> signal its error without a crash;
  on a target with no listener for \<^verbatim>\<open>"error"\<close> the call throws
  \<^verbatim>\<open>ERR_IPC_DISCONNECTED\<close>.
\<close>

theorem second_disconnect_without_listener_throws:
  "example_disconnected = snd (disconnect example_target) \<and>
   error_listeners example_disconnected = 0 \<and>
   disconnect example_disconnected = (Threw ERR_IPC_DISCONNECTED, example_disconnected)"
proof -
  have a: "example_disconnected = snd (disconnect example_target)"
    by (simp add: example_disconnected_def)
  have b: "error_listeners example_disconnected = 0 \<and>
     disconnect example_disconnected = (Threw ERR_IPC_DISCONNECTED, example_disconnected)"
    by (simp add: example_disconnected_eq disconnect_def emit_error_def eval_defs)
  show ?thesis by (rule conjI[OF a b])
qed

section \<open>Messages that arrive before a listener\<close>










lemmas inbound_defs = delivered_def buffered_def scheduled_def






lemmas eval_receive_defs = step_def tick_def run_task_def emit_def flush_def onread_def
  handleMessage_def isInternal_def INTERNAL_PREFIX_def on_def off_def newListener_handler_def
  target_emit_def listenerCount_message_def internalMessage_handler_def



section \<open>Receiving a handle\<close>

lemma internal_send_reply:
  assumes "connected s \<or> channel s \<or> \<not> assertions s"
    and "cmd = ''NODE_HANDLE_ACK'' \<or> cmd = ''NODE_HANDLE_NACK''"
  shows "internal_send s (JObj [(''cmd'', JStr cmd)]) JNull (JBool True) JUndefined =
     (Returned (JBool (w_queue (transport s (writes s)) < 65536 * 2)),
      (let s1 = s\<lparr>writes := Suc (writes s),
                    trace := trace s @ [Write (JObj [(''cmd'', JStr cmd)]) JNull (w_err (transport s (writes s)))]\<rparr>
       in if w_err (transport s (writes s)) = 0 \<and> w_async (transport s (writes s))
          then refCounted (s1\<lparr>inflight := inflight s1 @ [JUndefined]\<rparr>) else s1))"
proof -
  have r: "is_handle_reply (JObj [(''cmd'', JStr cmd)])"
    using assms(2) by (auto simp: is_handle_reply_def)
  have w: "internal_send s (JObj [(''cmd'', JStr cmd)]) JNull (JBool True) JUndefined =
      write_message s None (JObj [(''cmd'', JStr cmd)]) JNull (JObj [(''swallowErrors'', JBool True)]) JUndefined"
    using assms(1) r
    by (auto simp: internal_send_def legacy_options_def Let_def split: option.splits)
  show ?thesis unfolding w
    by (simp add: write_message_def Let_def effect_def nullish_def)
qed

lemma replied_facts:
  assumes "connected s \<or> channel s \<or> \<not> assertions s"
    and "cmd = ''NODE_HANDLE_ACK'' \<or> cmd = ''NODE_HANDLE_NACK''"
  shows "wire (replied s cmd) = wire s @ [Write (JObj [(''cmd'', JStr cmd)]) JNull (w_err (transport s (writes s)))]"
    and "fst (internal_send s (JObj [(''cmd'', JStr cmd)]) JNull (JBool True) JUndefined) =
           Returned (JBool (w_queue (transport s (writes s)) < 65536 * 2))"
    and "heap (replied s cmd) = heap s" and "next_ref (replied s cmd) = next_ref s"
    and "pending_got (replied s cmd) = pending_got s" and "ticks (replied s cmd) = ticks s"
    and "sockets_got (replied s cmd) = sockets_got s"
  unfolding replied_def internal_send_reply[OF assms]
  by (simp_all add: Let_def refCounted_def effect_def trace_defs)

lemma on_handle_without_handle:
  assumes "connected s \<or> channel s \<or> \<not> assertions s" and "\<not> truthy handle"
  shows "on_handle s message handle = (Returned (), replied s ''NODE_HANDLE_NACK'')"
proof -
  obtain v where "internal_send s (JObj [(''cmd'', JStr ''NODE_HANDLE_NACK'')]) JNull (JBool True) JUndefined =
      (Returned v, replied s ''NODE_HANDLE_NACK'')"
    using replied_facts(2)[OF assms(1), of "''NODE_HANDLE_NACK''"]
    by (cases "internal_send s (JObj [(''cmd'', JStr ''NODE_HANDLE_NACK'')]) JNull (JBool True) JUndefined")
      (simp add: replied_def)
  then show ?thesis using assms(2) by (simp add: on_handle_def)
qed

lemma on_handle_with_handle:
  assumes "connected s \<or> channel s \<or> \<not> assertions s" and "truthy handle"
    and "get_prop message ''type'' = JStr ty"
    and "ty = ''net.Server'' \<or> ty = ''net.Socket'' \<or> ty = ''dgram.Socket''"
  shows "on_handle s message handle =
     got (if win32 s then effect (SetSimultaneousAccepts handle False) (replied s ''NODE_HANDLE_ACK'')
          else replied s ''NODE_HANDLE_ACK'') ty message handle"
proof -
  obtain v where a: "internal_send s (JObj [(''cmd'', JStr ''NODE_HANDLE_ACK'')]) JNull (JBool True) JUndefined =
      (Returned v, replied s ''NODE_HANDLE_ACK'')"
    using replied_facts(2)[OF assms(1), of "''NODE_HANDLE_ACK''"]
    by (cases "internal_send s (JObj [(''cmd'', JStr ''NODE_HANDLE_ACK'')]) JNull (JBool True) JUndefined")
      (simp add: replied_def)
  have w: "win32 (replied s ''NODE_HANDLE_ACK'') = win32 s"
    using internal_send_frame[OF a] by (simp add: send_frame_def)
  show ?thesis using assms(2-4) a w by (auto simp: on_handle_def property_key_def Let_def)
qed

lemma got_reconstructs:
  assumes "ty = ''net.Server'' \<or> ty = ''net.Socket'' \<or> ty = ''dgram.Socket''"
  shows "wire (snd (got s ty message handle)) = wire s"
    and "next_ref (snd (got s ty message handle)) = Suc (next_ref s)"
    and "hclass (heap (snd (got s ty message handle)) (next_ref s)) =
           (if ty = ''net.Server'' then NetServer else if ty = ''net.Socket'' then NetSocket else DgramSocket)"
    and "raw_handle (heap (snd (got s ty message handle)) (next_ref s)) =
           (case handle of JRef r \<Rightarrow> Some r | _ \<Rightarrow> None)"
  using assms
  by (auto simp: got_def Let_def effect_def handleMessage_def nextTick_def new_object_def trace_defs)

text \<open>
  C7.  The \<^verbatim>\<open>"internalMessage"\<close> handler on a \<^verbatim>\<open>NODE_HANDLE\<close> envelope (on a target whose
  \<^verbatim>\<open>_send\<close> passes its assertion).  Without a handle it writes \<^verbatim>\<open>NODE_HANDLE_NACK\<close> and
  returns: no object is made, no reconstruction is left waiting, nothing is scheduled.
  With a handle and a type tag of the registry it is the \<^verbatim>\<open>got\<close> strategy of that type,
  run on the state in which \<^verbatim>\<open>NODE_HANDLE_ACK\<close> has been written already: the
  acknowledgment is the next write after those of the state it started in, the
  reconstruction writes nothing more, and it makes one new object of the class of the
  tag around the handle received.
\<close>

theorem handle_acknowledged_before_reconstruction:
  assumes "get_prop message ''cmd'' = JStr ''NODE_HANDLE''"
    and "connected s \<or> channel s \<or> \<not> assertions s"
  shows "(\<not> truthy handle \<longrightarrow>
            internalMessage_handler s message handle = (Returned (), replied s ''NODE_HANDLE_NACK'') \<and>
            wire (replied s ''NODE_HANDLE_NACK'') =
              wire s @ [Write (JObj [(''cmd'', JStr ''NODE_HANDLE_NACK'')]) JNull (w_err (transport s (writes s)))] \<and>
            heap (replied s ''NODE_HANDLE_NACK'') = heap s \<and>
            next_ref (replied s ''NODE_HANDLE_NACK'') = next_ref s \<and>
            pending_got (replied s ''NODE_HANDLE_NACK'') = pending_got s \<and>
            ticks (replied s ''NODE_HANDLE_NACK'') = ticks s) \<and>
         (truthy handle \<and> get_prop message ''type'' = JStr ty \<and>
          (ty = ''net.Server'' \<or> ty = ''net.Socket'' \<or> ty = ''dgram.Socket'') \<longrightarrow>
            internalMessage_handler s message handle =
              got (if win32 s then effect (SetSimultaneousAccepts handle False) (replied s ''NODE_HANDLE_ACK'')
                   else replied s ''NODE_HANDLE_ACK'') ty message handle \<and>
            wire (replied s ''NODE_HANDLE_ACK'') =
              wire s @ [Write (JObj [(''cmd'', JStr ''NODE_HANDLE_ACK'')]) JNull (w_err (transport s (writes s)))] \<and>
            wire (snd (internalMessage_handler s message handle)) = wire (replied s ''NODE_HANDLE_ACK'') \<and>
            next_ref (snd (internalMessage_handler s message handle)) = Suc (next_ref s) \<and>
            hclass (heap (snd (internalMessage_handler s message handle)) (next_ref s)) =
              (if ty = ''net.Server'' then NetServer else if ty = ''net.Socket'' then NetSocket
               else DgramSocket) \<and>
            raw_handle (heap (snd (internalMessage_handler s message handle)) (next_ref s)) =
              (case handle of JRef r \<Rightarrow> Some r | _ \<Rightarrow> None))"
proof (intro conjI impI)
  have h: "internalMessage_handler s message handle = on_handle s message handle"
    using assms(1) by (auto simp: internalMessage_handler_def nullish_def)
  {
    assume n: "\<not> truthy handle"
    show "internalMessage_handler s message handle = (Returned (), replied s ''NODE_HANDLE_NACK'')"
      using h on_handle_without_handle[OF assms(2) n] by simp
    show "wire (replied s ''NODE_HANDLE_NACK'') =
        wire s @ [Write (JObj [(''cmd'', JStr ''NODE_HANDLE_NACK'')]) JNull (w_err (transport s (writes s)))]"
      by (rule replied_facts(1)[OF assms(2)]) simp
    show "heap (replied s ''NODE_HANDLE_NACK'') = heap s"
      by (rule replied_facts(3)[OF assms(2)]) simp
    show "next_ref (replied s ''NODE_HANDLE_NACK'') = next_ref s"
      by (rule replied_facts(4)[OF assms(2)]) simp
    show "pending_got (replied s ''NODE_HANDLE_NACK'') = pending_got s"
      by (rule replied_facts(5)[OF assms(2)]) simp
    show "ticks (replied s ''NODE_HANDLE_NACK'') = ticks s"
      by (rule replied_facts(6)[OF assms(2)]) simp
  }
  {
    assume a: "truthy handle \<and> get_prop message ''type'' = JStr ty \<and>
          (ty = ''net.Server'' \<or> ty = ''net.Socket'' \<or> ty = ''dgram.Socket'')"
    let ?s1 = "if win32 s then effect (SetSimultaneousAccepts handle False) (replied s ''NODE_HANDLE_ACK'')
               else replied s ''NODE_HANDLE_ACK''"
    have t: "ty = ''net.Server'' \<or> ty = ''net.Socket'' \<or> ty = ''dgram.Socket''" using a by simp
    have g: "internalMessage_handler s message handle = got ?s1 ty message handle"
      using h on_handle_with_handle[OF assms(2), of handle message ty] a by simp
    have k: "wire ?s1 = wire (replied s ''NODE_HANDLE_ACK'')"
      "next_ref ?s1 = next_ref s"
      using replied_facts(4)[OF assms(2), of "''NODE_HANDLE_ACK''"]
      by (simp_all add: effect_def trace_defs)
    show "internalMessage_handler s message handle = got ?s1 ty message handle" by (rule g)
    show "wire (replied s ''NODE_HANDLE_ACK'') =
        wire s @ [Write (JObj [(''cmd'', JStr ''NODE_HANDLE_ACK'')]) JNull (w_err (transport s (writes s)))]"
      by (rule replied_facts(1)[OF assms(2)]) simp
    show "wire (snd (internalMessage_handler s message handle)) = wire (replied s ''NODE_HANDLE_ACK'')"
      using got_reconstructs(1)[OF t, of ?s1 message handle] k(1) by (simp only: g)
    show "next_ref (snd (internalMessage_handler s message handle)) = Suc (next_ref s)"
      using got_reconstructs(2)[OF t, of ?s1 message handle] k(2) by (simp only: g)
    show "hclass (heap (snd (internalMessage_handler s message handle)) (next_ref s)) =
              (if ty = ''net.Server'' then NetServer else if ty = ''net.Socket'' then NetSocket
               else DgramSocket)"
      using got_reconstructs(3)[OF t, of ?s1 message handle] k(2) by (simp only: g)
    show "raw_handle (heap (snd (internalMessage_handler s message handle)) (next_ref s)) =
              (case handle of JRef r \<Rightarrow> Some r | _ \<Rightarrow> None)"
      using got_reconstructs(4)[OF t, of ?s1 message handle] k(2) by (simp only: g)
  }
qed

theorem handle_acknowledged_before_reconstruction_witness:
  "wire (snd (internalMessage_handler example_target (envelope ''net.Socket'' (JStr ''a'')) JUndefined)) =
     [Write (JObj [(''cmd'', JStr ''NODE_HANDLE_NACK'')]) JNull 0] \<and>
   next_ref (snd (internalMessage_handler example_target (envelope ''net.Socket'' (JStr ''a'')) JUndefined)) = 8 \<and>
   wire (snd (internalMessage_handler example_target (envelope ''net.Socket'' (JStr ''a'')) (JRef 1))) =
     [Write (JObj [(''cmd'', JStr ''NODE_HANDLE_ACK'')]) JNull 0] \<and>
   next_ref (snd (internalMessage_handler example_target (envelope ''net.Socket'' (JStr ''a'')) (JRef 1))) = 9 \<and>
   hclass (heap (snd (internalMessage_handler example_target (envelope ''net.Socket'' (JStr ''a'')) (JRef 1))) 8) = NetSocket \<and>
   raw_handle (heap (snd (internalMessage_handler example_target (envelope ''net.Socket'' (JStr ''a'')) (JRef 1))) 8) = Some 1"
proof -
  have c: "get_prop (envelope ''net.Socket'' (JStr ''a'')) ''cmd'' = JStr ''NODE_HANDLE''"
    "get_prop (envelope ''net.Socket'' (JStr ''a'')) ''type'' = JStr ''net.Socket''"
    by (simp_all add: envelope_def)
  have l: "connected example_target \<or> channel example_target \<or> \<not> assertions example_target"
    by (simp add: eval_defs)
  have e: "wire example_target = []" "writes example_target = 0" "next_ref example_target = 8"
    "w_err (transport example_target 0) = 0"
    by (simp_all add: eval_defs wire_def)
  note n = handle_acknowledged_before_reconstruction[OF c(1) l, of JUndefined,
      THEN conjunct1, rule_format]
  note a = handle_acknowledged_before_reconstruction[OF c(1) l, of "JRef 1" "''net.Socket''",
      THEN conjunct2, rule_format]
  have "\<not> truthy JUndefined" by simp
  note n1 = n[OF this]
  have "truthy (JRef 1) \<and> get_prop (envelope ''net.Socket'' (JStr ''a'')) ''type'' = JStr ''net.Socket'' \<and>
    (''net.Socket'' = ''net.Server'' \<or> ''net.Socket'' = ''net.Socket'' \<or> ''net.Socket'' = ''dgram.Socket'')"
    using c(2) by simp
  note a1 = a[OF this]
  let ?hn = "internalMessage_handler example_target (envelope ''net.Socket'' (JStr ''a'')) JUndefined"
  let ?ha = "internalMessage_handler example_target (envelope ''net.Socket'' (JStr ''a'')) (JRef 1)"
  have n2: "snd ?hn = replied example_target ''NODE_HANDLE_NACK''"
    using n1 by simp
  have n3: "wire (replied example_target ''NODE_HANDLE_NACK'') =
      [Write (JObj [(''cmd'', JStr ''NODE_HANDLE_NACK'')]) JNull 0]"
    "next_ref (replied example_target ''NODE_HANDLE_NACK'') = 8"
    using n1 e by simp_all
  have a2: "wire (snd ?ha) = wire (replied example_target ''NODE_HANDLE_ACK'')"
    "wire (replied example_target ''NODE_HANDLE_ACK'') =
       [Write (JObj [(''cmd'', JStr ''NODE_HANDLE_ACK'')]) JNull 0]"
    "next_ref (snd ?ha) = 9" "hclass (heap (snd ?ha) 8) = NetSocket"
    "raw_handle (heap (snd ?ha) 8) = Some 1"
    using a1[THEN conjunct2] e by simp_all
  show ?thesis using n2 n3 a2 by (simp only: simp_thms)
qed

section \<open>Internal and user envelopes\<close>

lemma emit_buffers:
  assumes "channel s" and "listenerCount_message s = 0"
  shows "emit s ''message'' m h =
     (Returned (), s\<lparr>kPendingMessages := kPendingMessages s @ [(''message'', m, h)]\<rparr>)"
  using assms by (simp add: emit_def)

lemma isInternal_iff:
  "isInternal message \<longleftrightarrow>
     (\<exists>fs c. message = JObj fs \<and> map_of fs ''cmd'' = Some (JStr c) \<and>
             length ''NODE_'' < length c \<and> take (length ''NODE_'') c = ''NODE_'')"
proof (cases message)
  case (JObj fs)
  show ?thesis
  proof (cases "map_of fs ''cmd''")
    case None
    then show ?thesis using JObj by (simp add: isInternal_def)
  next
    case (Some v)
    then show ?thesis using JObj
      by (cases v) (simp_all add: isInternal_def INTERNAL_PREFIX_def)
  qed
qed (simp_all add: isInternal_def)

lemma deliver_ticks:
  assumes "channel s"
  shows "\<exists>hs. length hs = length ms \<and>
     ticks (deliver s ms) =
       ticks s @ map (\<lambda>x. TEmit (if isInternal (fst x) then ''internalMessage'' else ''message'') (fst x) (snd x))
                     (zip ms hs)"
  using assms
proof (induction ms arbitrary: s)
  case Nil
  then show ?case by simp
next
  case (Cons m ms)
  let ?h = "if isInternal m \<and> get_prop m ''cmd'' = JStr ''NODE_HANDLE'' then pendingHandle s else JUndefined"
  let ?s1 = "if isInternal m \<and> get_prop m ''cmd'' = JStr ''NODE_HANDLE''
             then (handleMessage s m (pendingHandle s) True)\<lparr>pendingHandle := JNull\<rparr>
             else handleMessage s m JUndefined (isInternal m)"
  have d: "deliver s (m # ms) = deliver ?s1 ms" by simp
  have c: "channel ?s1" using Cons.prems by (simp add: handleMessage_def nextTick_def)
  have t: "ticks ?s1 = ticks s @ [TEmit (if isInternal m then ''internalMessage'' else ''message'') m ?h]"
    using Cons.prems by (simp add: handleMessage_def nextTick_def)
  from Cons.IH[OF c] obtain hs where hs: "length hs = length ms"
    "ticks (deliver ?s1 ms) =
       ticks ?s1 @ map (\<lambda>x. TEmit (if isInternal (fst x) then ''internalMessage'' else ''message'') (fst x) (snd x))
                     (zip ms hs)"
    by blast
  have "length (?h # hs) = length (m # ms) \<and>
     ticks (deliver s (m # ms)) =
       ticks s @ map (\<lambda>x. TEmit (if isInternal (fst x) then ''internalMessage'' else ''message'') (fst x) (snd x))
                     (zip (m # ms) (?h # hs))"
    using hs t by (simp only: d) simp
  then show ?case by blast
qed

lemma target_emit_internal:
  assumes "target_emit s ''internalMessage'' m h = (r, s')"
  shows "emitted (trace s') = emitted (trace s) @ [Emit ''internalMessage'' m h]"
    and "kPendingMessages s' = kPendingMessages s"
proof -
  let ?s0 = "effect (Emit ''internalMessage'' m h) s"
  obtain r1 s1 where a: "internalMessage_handler ?s0 m h = (r1, s1)"
    by (cases "internalMessage_handler ?s0 m h")
  have f1: "emitted (trace s1) = emitted (trace s) @ [Emit ''internalMessage'' m h]"
    "kPendingMessages s1 = kPendingMessages s"
    using internalMessage_handler_frame[OF a] by (simp_all add: handler_frame_def effect_def)
  let ?s2 = "s1\<lparr>once_internalMessage := filter (\<lambda>k. k \<notin> set (once_internalMessage ?s0)) (once_internalMessage s1)\<rparr>"
  have f2: "emitted (trace (fold finish (once_internalMessage ?s0) ?s2)) = emitted (trace s1)"
    "kPendingMessages (fold finish (once_internalMessage ?s0) ?s2) = kPendingMessages s1"
    using fold_finish_frame[of ?s2 "once_internalMessage ?s0"] by (simp_all add: handler_frame_def)
  have "s' = s1 \<or> s' = fold finish (once_internalMessage ?s0) ?s2"
    using assms a by (cases r1) (simp_all add: target_emit_def Let_def)
  then show "emitted (trace s') = emitted (trace s) @ [Emit ''internalMessage'' m h]"
    and "kPendingMessages s' = kPendingMessages s"
    using f1 f2 by auto
qed

lemma target_emit_user:
  "target_emit s ''message'' m h =
     (Returned (), fold finish (once_message s) ((effect (Emit ''message'' m h) s)\<lparr>once_message := []\<rparr>))"
  "emitted (trace (snd (target_emit s ''message'' m h))) = emitted (trace s) @ [Emit ''message'' m h]"
proof -
  show e: "target_emit s ''message'' m h =
     (Returned (), fold finish (once_message s) ((effect (Emit ''message'' m h) s)\<lparr>once_message := []\<rparr>))"
    by (simp add: target_emit_def Let_def effect_def)
  show "emitted (trace (snd (target_emit s ''message'' m h))) = emitted (trace s) @ [Emit ''message'' m h]"
    using fold_finish_frame[of "(effect (Emit ''message'' m h) s)\<lparr>once_message := []\<rparr>" "once_message s"]
    by (simp add: e handler_frame_def effect_def)
qed

text \<open>
  C8.  An envelope is internal exactly when it is an object whose \<^verbatim>\<open>cmd\<close> is a string
  longer than \<^verbatim>\<open>NODE_\<close> that starts with it.  A read on a target with its channel schedules
  one \<^verbatim>\<open>emit\<close> for each envelope of the chunk, in order, with the event
  \<^verbatim>\<open>"internalMessage"\<close> for an internal envelope and \<^verbatim>\<open>"message"\<close> for any other.  The
  \<^verbatim>\<open>emit\<close> of an \<^verbatim>\<open>"internalMessage"\<close>, however it ends, emits that event once on the
  target and no other event with a message, and puts nothing in the pending buffer; the
  \<^verbatim>\<open>emit\<close> of a \<^verbatim>\<open>"message"\<close> emits it as \<^verbatim>\<open>"message"\<close> when there is a listener, and
  otherwise (on a target with its channel) appends it to the pending buffer under the
  event \<^verbatim>\<open>"message"\<close>.
\<close>

theorem internal_envelopes_never_reach_message_listeners:
  "(isInternal message \<longleftrightarrow>
      (\<exists>fs c. message = JObj fs \<and> map_of fs ''cmd'' = Some (JStr c) \<and>
              length ''NODE_'' < length c \<and> take (length ''NODE_'') c = ''NODE_'')) \<and>
   (channel s \<and> \<not> channel_onread_nop s \<longrightarrow>
      fst (onread s recv (Data ms b)) = Returned () \<and>
      (\<exists>hs. length hs = length ms \<and>
         ticks (snd (onread s recv (Data ms b))) =
           ticks s @ map (\<lambda>x. TEmit (if isInternal (fst x) then ''internalMessage'' else ''message'')
                                    (fst x) (snd x)) (zip ms hs))) \<and>
   emitted (trace (snd (emit s ''internalMessage'' message handle))) =
     emitted (trace s) @ [Emit ''internalMessage'' message handle] \<and>
   kPendingMessages (snd (emit s ''internalMessage'' message handle)) = kPendingMessages s \<and>
   (listenerCount_message s \<noteq> 0 \<longrightarrow>
      fst (emit s ''message'' message handle) = Returned () \<and>
      emitted (trace (snd (emit s ''message'' message handle))) =
        emitted (trace s) @ [Emit ''message'' message handle]) \<and>
   (listenerCount_message s = 0 \<and> channel s \<longrightarrow>
      emit s ''message'' message handle =
        (Returned (), s\<lparr>kPendingMessages := kPendingMessages s @ [(''message'', message, handle)]\<rparr>))"
proof (intro conjI impI)
  show "isInternal message \<longleftrightarrow>
      (\<exists>fs c. message = JObj fs \<and> map_of fs ''cmd'' = Some (JStr c) \<and>
              length ''NODE_'' < length c \<and> take (length ''NODE_'') c = ''NODE_'')"
    by (rule isInternal_iff)
next
  assume a: "channel s \<and> \<not> channel_onread_nop s"
  then show "fst (onread s recv (Data ms b)) = Returned ()" by (simp add: onread_def)
  let ?s0 = "if truthy recv then s\<lparr>pendingHandle := recv\<rparr> else s"
  have c: "channel ?s0" "ticks ?s0 = ticks s" using a by simp_all
  have "ticks (snd (onread s recv (Data ms b))) = ticks (deliver ?s0 ms)"
    using a by (simp add: onread_def)
  then show "\<exists>hs. length hs = length ms \<and>
         ticks (snd (onread s recv (Data ms b))) =
           ticks s @ map (\<lambda>x. TEmit (if isInternal (fst x) then ''internalMessage'' else ''message'')
                                    (fst x) (snd x)) (zip ms hs)"
    using deliver_ticks[OF c(1), of ms] c(2) by simp
next
  obtain r s' where e: "target_emit s ''internalMessage'' message handle = (r, s')"
    by (cases "target_emit s ''internalMessage'' message handle")
  have i: "emit s ''internalMessage'' message handle = (r, s')"
    using e by (simp add: emit_def)
  show "emitted (trace (snd (emit s ''internalMessage'' message handle))) =
     emitted (trace s) @ [Emit ''internalMessage'' message handle]"
    using target_emit_internal(1)[OF e] by (simp add: i)
  show "kPendingMessages (snd (emit s ''internalMessage'' message handle)) = kPendingMessages s"
    using target_emit_internal(2)[OF e] by (simp add: i)
next
  assume l: "listenerCount_message s \<noteq> 0"
  then have e: "emit s ''message'' message handle = target_emit s ''message'' message handle"
    by (simp add: emit_def)
  show "fst (emit s ''message'' message handle) = Returned ()"
    by (simp add: e target_emit_user(1))
  show "emitted (trace (snd (emit s ''message'' message handle))) =
        emitted (trace s) @ [Emit ''message'' message handle]"
    by (simp only: e target_emit_user(2))
next
  assume "listenerCount_message s = 0 \<and> channel s"
  then show "emit s ''message'' message handle =
        (Returned (), s\<lparr>kPendingMessages := kPendingMessages s @ [(''message'', message, handle)]\<rparr>)"
    by (simp add: emit_buffers)
qed

theorem internal_envelopes_never_reach_message_listeners_witness:
  "isInternal (JObj [(''cmd'', JStr ''NODE_HANDLE_ACK'')]) \<and>
   \<not> isInternal (JObj [(''cmd'', JStr ''NODE_'')]) \<and>
   (\<exists>hs. length hs = 2 \<and>
      ticks (snd (onread example_target JNull (Data [JObj [(''cmd'', JStr ''NODE_X'')], JStr ''hello''] False))) =
        map (\<lambda>x. TEmit (if isInternal (fst x) then ''internalMessage'' else ''message'') (fst x) (snd x))
            (zip [JObj [(''cmd'', JStr ''NODE_X'')], JStr ''hello''] hs)) \<and>
   emitted (trace (snd (emit example_target ''internalMessage'' (JObj [(''cmd'', JStr ''NODE_X'')]) JUndefined))) =
     [Emit ''internalMessage'' (JObj [(''cmd'', JStr ''NODE_X'')]) JUndefined] \<and>
   emitted (trace (snd (emit (on example_target ''message'') ''message'' (JStr ''hello'') JUndefined))) =
     [Emit ''message'' (JStr ''hello'') JUndefined] \<and>
   kPendingMessages (snd (emit example_target ''message'' (JStr ''hello'') JUndefined)) =
     [(''message'', JStr ''hello'', JUndefined)]"
proof -
  have e: "channel example_target \<and> \<not> channel_onread_nop example_target"
    "ticks example_target = []" "trace example_target = []" "kPendingMessages example_target = []"
    "listenerCount_message example_target = 0 \<and> channel example_target"
    "listenerCount_message (on example_target ''message'') \<noteq> 0"
    "trace (on example_target ''message'') = []"
    by (simp_all add: eval_defs listenerCount_message_def on_def newListener_handler_def)
  note t = internal_envelopes_never_reach_message_listeners
  have 1: "isInternal (JObj [(''cmd'', JStr ''NODE_HANDLE_ACK'')])"
    using t[of "JObj [(''cmd'', JStr ''NODE_HANDLE_ACK'')]", THEN conjunct1] by simp
  have 2: "\<not> isInternal (JObj [(''cmd'', JStr ''NODE_'')])"
    using t[of "JObj [(''cmd'', JStr ''NODE_'')]", THEN conjunct1] by simp
  have 3: "\<exists>hs. length hs = 2 \<and>
      ticks (snd (onread example_target JNull (Data [JObj [(''cmd'', JStr ''NODE_X'')], JStr ''hello''] False))) =
        map (\<lambda>x. TEmit (if isInternal (fst x) then ''internalMessage'' else ''message'') (fst x) (snd x))
            (zip [JObj [(''cmd'', JStr ''NODE_X'')], JStr ''hello''] hs)"
    using t[of _ example_target JNull "[JObj [(''cmd'', JStr ''NODE_X'')], JStr ''hello'']" False,
        THEN conjunct2, THEN conjunct1, rule_format, OF e(1)] e(2)
    by (simp add: numeral_2_eq_2)
  have 4: "emitted (trace (snd (emit example_target ''internalMessage'' (JObj [(''cmd'', JStr ''NODE_X'')]) JUndefined))) =
     [Emit ''internalMessage'' (JObj [(''cmd'', JStr ''NODE_X'')]) JUndefined]"
    using t[of "JObj [(''cmd'', JStr ''NODE_X'')]" example_target _ _ _ JUndefined,
        THEN conjunct2, THEN conjunct2, THEN conjunct1] e(3)
    by simp
  have 5: "emitted (trace (snd (emit (on example_target ''message'') ''message'' (JStr ''hello'') JUndefined))) =
     [Emit ''message'' (JStr ''hello'') JUndefined]"
    using t[of "JStr ''hello''" "on example_target ''message''" _ _ _ JUndefined,
        THEN conjunct2, THEN conjunct2, THEN conjunct2, THEN conjunct2, THEN conjunct1, rule_format, OF e(6)]
      e(7)
    by simp
  have 6: "kPendingMessages (snd (emit example_target ''message'' (JStr ''hello'') JUndefined)) =
     [(''message'', JStr ''hello'', JUndefined)]"
    using t[of "JStr ''hello''" example_target _ _ _ JUndefined,
        THEN conjunct2, THEN conjunct2, THEN conjunct2, THEN conjunct2, THEN conjunct2, rule_format, OF e(5)]
      e(4)
    by simp
  show ?thesis using 1 2 3 4 5 6 by (simp only: simp_thms)
qed

section \<open>A negative acknowledgment\<close>

text \<open>
  C2 (where the code departs from it).  \<^verbatim>\<open>postSend\<close> stores in \<^verbatim>\<open>_pendingMessage\<close> the raw
  handle that the \<^verbatim>\<open>send\<close> strategy took out of the socket.  On \<^verbatim>\<open>NODE_HANDLE_NACK\<close> below
  the cap, the handler counts the retransmission, clears \<^verbatim>\<open>_handleQueue\<close> and calls
  \<^verbatim>\<open>_send\<close> with that raw handle; \<^verbatim>\<open>_send\<close> knows the classes \<^verbatim>\<open>net.Socket\<close>,
  \<^verbatim>\<open>net.Server\<close> and \<^verbatim>\<open>dgram.Socket\<close> only (the branch for raw handles is commented out
  in the source), so it throws \<^verbatim>\<open>ERR_INVALID_HANDLE_TYPE\<close>: nothing is written again, and
  the handler goes no further.
\<close>

theorem nack_retransmission_throws:
  assumes "pendingMessage s = Some p"
    and "retransmissions p \<noteq> MAX_HANDLE_RETRANSMISSIONS"
    and "handleQueue s = Some q"
    and "connected s \<or> channel s \<or> \<not> assertions s"
    and "typeof (p_message p) = ''object''"
    and "truthy (p_handle p)"
    and "handle_tag s (p_handle p) = None"
  shows "internalMessage_handler s (JObj [(''cmd'', JStr ''NODE_HANDLE_NACK'')]) handle =
           (Threw ERR_INVALID_HANDLE_TYPE,
            s\<lparr>pendingMessage := Some (p\<lparr>retransmissions := Suc (retransmissions p)\<rparr>),
              handleQueue := None\<rparr>)"
proof -
  let ?s1 = "s\<lparr>pendingMessage := Some (p\<lparr>retransmissions := retransmissions p + 1\<rparr>)\<rparr>"
  let ?s2 = "?s1\<lparr>handleQueue := None\<rparr>"
  have sp: "settle_pending s False = ?s1"
    using assms(1,2) by (simp add: settle_pending_def Let_def)
  have m: "p_message p \<noteq> JUndefined" using assms(5) by auto
  have t: "handle_tag ?s2 (p_handle p) = handle_tag s (p_handle p)"
    by (cases "p_handle p") (simp_all add: handle_tag_def instance_of_def)
  have "internal_send ?s2 (p_message p) (p_handle p) (p_options p) (p_callback p) =
      (Threw ERR_INVALID_HANDLE_TYPE, ?s2)"
    using assms(4,5,6,7) m t by (auto simp: internal_send_def Let_def)
  then have "on_handle_reply s False = (Threw ERR_INVALID_HANDLE_TYPE, ?s2)"
    using assms(3) by (simp add: on_handle_reply_def sp Let_def)
  then show ?thesis by (simp add: internalMessage_handler_def nullish_def)
qed

theorem nack_retransmission_throws_witness:
  "example_awaiting = snd (send example_target (JStr ''a'') (JRef 0) JUndefined JUndefined) \<and>
   wire example_awaiting = [Write (envelope ''net.Socket'' (JStr ''a'')) (JRef 1) 0] \<and>
   internalMessage_handler example_awaiting (JObj [(''cmd'', JStr ''NODE_HANDLE_NACK'')]) JUndefined =
     (Threw ERR_INVALID_HANDLE_TYPE,
      example_awaiting\<lparr>pendingMessage :=
          Some \<lparr>p_callback = JUndefined, p_message = envelope ''net.Socket'' (JStr ''a''),
                p_handle = JRef 1, p_options = JObj [(''swallowErrors'', JBool False)],
                retransmissions = 1\<rparr>,
        handleQueue := None\<rparr>)"
proof -
  let ?p = "\<lparr>p_callback = JUndefined, p_message = envelope ''net.Socket'' (JStr ''a''),
             p_handle = JRef 1, p_options = JObj [(''swallowErrors'', JBool False)],
             retransmissions = 0\<rparr>"
  have a: "pendingMessage example_awaiting = Some ?p"
    "retransmissions ?p \<noteq> MAX_HANDLE_RETRANSMISSIONS"
    "handleQueue example_awaiting = Some []"
    "connected example_awaiting \<or> channel example_awaiting \<or> \<not> assertions example_awaiting"
    "typeof (p_message ?p) = ''object''"
    "truthy (p_handle ?p)"
    "handle_tag example_awaiting (p_handle ?p) = None"
    by (simp_all add: example_awaiting_eq eval_defs MAX_HANDLE_RETRANSMISSIONS_def)
  have w: "wire example_awaiting = [Write (envelope ''net.Socket'' (JStr ''a'')) (JRef 1) 0]"
    by (simp add: example_awaiting_eq eval_defs trace_defs)
  have d: "example_awaiting = snd (send example_target (JStr ''a'') (JRef 0) JUndefined JUndefined)"
    by (simp add: example_awaiting_def)
  have h: "internalMessage_handler example_awaiting (JObj [(''cmd'', JStr ''NODE_HANDLE_NACK'')]) JUndefined =
     (Threw ERR_INVALID_HANDLE_TYPE,
      example_awaiting\<lparr>pendingMessage :=
          Some \<lparr>p_callback = JUndefined, p_message = envelope ''net.Socket'' (JStr ''a''),
                p_handle = JRef 1, p_options = JObj [(''swallowErrors'', JBool False)],
                retransmissions = 1\<rparr>,
        handleQueue := None\<rparr>)"
    using nack_retransmission_throws[OF a, of JUndefined] by simp
  show ?thesis by (rule conjI, rule d, rule conjI, rule w, rule h)
qed

section \<open>The negative acknowledgment at the cap\<close>

text \<open>
  X3.  A \<^verbatim>\<open>NODE_HANDLE_NACK\<close> that finds the retransmissions of the pending handle at the
  cap, on a target whose \<^verbatim>\<open>_handleQueue\<close> an earlier negative acknowledgment has cleared
  (and with assertions off), closes the handle and emits the warning, and then throws
  \<^verbatim>\<open>TypeError\<close> where the handler reads the length of the queue it saved.
\<close>

theorem nack_at_the_cap_throws:
  assumes "pendingMessage s = Some p" and "retransmissions p = MAX_HANDLE_RETRANSMISSIONS"
    and "handleQueue s = None" and "\<not> assertions s"
  shows "internalMessage_handler s (JObj [(''cmd'', JStr ''NODE_HANDLE_NACK'')]) handle =
     (Threw TypeError,
      s\<lparr>pendingMessage := None,
        trace := trace s @ [HandleClose (p_handle p),
                            EmitWarning ''Handle did not reach the receiving process correctly''
                                        ''SentHandleNotReceivedWarning''],
        handleQueue := None\<rparr>)"
proof -
  have sp: "settle_pending s False =
      s\<lparr>pendingMessage := None,
        trace := trace s @ [HandleClose (p_handle p),
                            EmitWarning ''Handle did not reach the receiving process correctly''
                                        ''SentHandleNotReceivedWarning'']\<rparr>"
    using assms(1,2)
    by (simp add: settle_pending_def closePendingHandle_def effect_def Let_def)
  have "on_handle_reply s False =
     (Threw TypeError,
      s\<lparr>pendingMessage := None,
        trace := trace s @ [HandleClose (p_handle p),
                            EmitWarning ''Handle did not reach the receiving process correctly''
                                        ''SentHandleNotReceivedWarning''],
        handleQueue := None\<rparr>)"
    unfolding on_handle_reply_def sp Let_def using assms(3,4) by simp
  then show ?thesis by (simp add: internalMessage_handler_def nullish_def)
qed

lemmas eval_handler_defs = on_handle_reply_def settle_pending_def closePendingHandle_def
  internal_disconnect_def disconnect_def MAX_HANDLE_RETRANSMISSIONS_def nullish_def

theorem nack_at_the_cap_throws_witness:
  "fst (internalMessage_handler
          (foldl (\<lambda>s n. snd (internalMessage_handler s (JObj [(''cmd'', JStr ''NODE_HANDLE_NACK'')]) JUndefined))
             example_awaiting [1, 2, 3 :: nat])
          (JObj [(''cmd'', JStr ''NODE_HANDLE_NACK'')]) JUndefined) = Threw TypeError \<and>
   trace (snd (internalMessage_handler
          (foldl (\<lambda>s n. snd (internalMessage_handler s (JObj [(''cmd'', JStr ''NODE_HANDLE_NACK'')]) JUndefined))
             example_awaiting [1, 2, 3 :: nat])
          (JObj [(''cmd'', JStr ''NODE_HANDLE_NACK'')]) JUndefined)) =
     trace example_awaiting @
       [HandleClose (JRef 1),
        EmitWarning ''Handle did not reach the receiving process correctly'' ''SentHandleNotReceivedWarning'']"
proof -
  let ?nack = "JObj [(''cmd'', JStr ''NODE_HANDLE_NACK'')]"
  let ?s3 = "foldl (\<lambda>s n. snd (internalMessage_handler s ?nack JUndefined)) example_awaiting [1, 2, 3 :: nat]"
  let ?p = "\<lparr>p_callback = JUndefined, p_message = envelope ''net.Socket'' (JStr ''a''),
             p_handle = JRef 1, p_options = JObj [(''swallowErrors'', JBool False)],
             retransmissions = 3\<rparr>"
  have e: "?s3 = example_awaiting\<lparr>pendingMessage := Some ?p, handleQueue := None\<rparr>"
    by (simp add: example_awaiting_eq internalMessage_handler_def eval_handler_defs eval_defs)
  have a: "pendingMessage ?s3 = Some ?p" "retransmissions ?p = MAX_HANDLE_RETRANSMISSIONS"
    "handleQueue ?s3 = None" "\<not> assertions ?s3" "trace ?s3 = trace example_awaiting"
    unfolding e by (simp_all add: example_awaiting_eq eval_defs MAX_HANDLE_RETRANSMISSIONS_def)
  note t = nack_at_the_cap_throws[OF a(1-4), of JUndefined]
  show ?thesis unfolding t using a(5) by simp
qed

section \<open>One handshake at a time\<close>

lemma write_message_queue:
  assumes "write_message s obj m h opts cb = (r, s')"
  shows "handleQueue s' =
           (if w_err (transport s (writes s)) = 0 \<and> truthy h \<and> handleQueue s = None
            then Some [] else handleQueue s)"
    and "handshakes s' = handshakes s @
           (if truthy h \<and> w_err (transport s (writes s)) = 0 then [Write m h 0] else [])"
  using assms unfolding write_message_def Let_def
  by (auto simp: handshakes_def starts_handshake_def postSend_def refCounted_def effect_def
      nextTick_def Let_def split: if_splits prod.splits outcome.splits)

lemma convert_send_handshakes:
  assumes "convert_send s t m h opts = (r, s')"
  shows "handshakes s' = handshakes s"
  using assms unfolding convert_send_def net_Socket_send_def net_Server_send_def
    dgram_Socket_send_def track_socket_def Let_def
  by (auto simp: handshakes_def starts_handshake_def effect_def
      split: if_splits jsval.splits option.splits prod.splits outcome.splits)

lemma internal_send_handshake:
  assumes "internal_send s m h opts cb = (r, s')"
  shows "(handleQueue s \<noteq> None \<longrightarrow> handleQueue s' \<noteq> None \<and> handshakes s' = handshakes s) \<and>
         (handleQueue s = None \<longrightarrow>
            (handleQueue s' = None \<and> handshakes s' = handshakes s) \<or>
            (handleQueue s' = Some [] \<and> (\<exists>e. handshakes s' = handshakes s @ [e])))"
  using assms
proof (cases rule: internal_send_cases)
  case (threw e)
  then show ?thesis by auto
next
  case (push_threw q)
  then show ?thesis by (simp add: handshakes_def)
next
  case (convert_threw t e)
  then show ?thesis
    using convert_send_quiet(5)[OF convert_threw(4)] convert_send_handshakes[OF convert_threw(4)]
    by simp
next
  case (accepts_threw t env h')
  then show ?thesis
    using convert_send_quiet(5)[OF accepts_threw(4)] convert_send_handshakes[OF accepts_threw(4)]
    by simp
next
  case (wrote_handle t env h' s1)
  let ?s1 = "if t = ''net.Server'' \<and> win32 s1 then effect (SetSimultaneousAccepts h' True) s1 else s1"
  have k: "handleQueue ?s1 = None" "handshakes ?s1 = handshakes s"
    using convert_send_quiet(5)[OF wrote_handle(4)] convert_send_handshakes[OF wrote_handle(4)]
      wrote_handle(2)
    by (simp_all add: effect_def handshakes_def starts_handshake_def)
  show ?thesis
    using write_message_queue[OF wrote_handle(5)] k wrote_handle(2)
    by (auto split: if_splits)
next
  case wrote_plain
  then show ?thesis
    using write_message_queue[OF wrote_plain(3)] by auto
qed

lemma run_sends_handshakes:
  "(handleQueue s \<noteq> None \<longrightarrow> handshakes (run_sends s cs) = handshakes s) \<and>
   (handshakes (run_sends s cs) = handshakes s \<or> (\<exists>e. handshakes (run_sends s cs) = handshakes s @ [e]))"
proof (induction cs arbitrary: s)
  case Nil
  then show ?case by simp
next
  case (Cons c cs)
  obtain m h opts cb where c: "c = (m, h, opts, cb)" by (cases c)
  obtain r s1 where a: "internal_send s m h opts cb = (r, s1)" by (cases "internal_send s m h opts cb")
  have r: "run_sends s (c # cs) = run_sends s1 cs" using c a by simp
  note st = internal_send_handshake[OF a]
  note ih = Cons.IH[of s1]
  show ?case
  proof (cases "handleQueue s")
    case (Some q)
    then have "handleQueue s1 \<noteq> None" "handshakes s1 = handshakes s" using st by simp_all
    then show ?thesis using ih Some by (simp add: r)
  next
    case None
    then consider "handleQueue s1 = None" "handshakes s1 = handshakes s"
      | e where "handleQueue s1 = Some []" "handshakes s1 = handshakes s @ [e]"
      using st by auto
    then show ?thesis
    proof cases
      case 1
      then show ?thesis using ih None by (simp add: r)
    next
      case 2
      then show ?thesis using ih None by (auto simp: r)
    qed
  qed
qed

text \<open>
  X1.  Whatever calls of \<^verbatim>\<open>_send\<close> follow one another with no acknowledgment in
  between, at most one of their writes hands a handle to the transport with success; and
  none does while an acknowledgment is awaited.
\<close>

theorem at_most_one_handshake_per_run:
  "length (handshakes (run_sends s calls)) \<le> Suc (length (handshakes s)) \<and>
   (handleQueue s \<noteq> None \<longrightarrow> handshakes (run_sends s calls) = handshakes s)"
  using run_sends_handshakes[of s calls] by auto

theorem at_most_one_handshake_per_run_witness:
  "handshakes (run_sends example_target
       [(JStr ''a'', JRef 0, JObj [], JUndefined), (JStr ''b'', JRef 2, JObj [], JUndefined),
        (JStr ''c'', JUndefined, JObj [], JUndefined)]) =
     [Write (envelope ''net.Socket'' (JStr ''a'')) (JRef 1) 0] \<and>
   handshakes (run_sends example_awaiting [(JStr ''b'', JRef 2, JObj [], JUndefined)]) =
     handshakes example_awaiting"
proof -
  have q: "handleQueue example_awaiting \<noteq> None"
    by (simp add: example_awaiting_eq)
  have "handshakes (run_sends example_target
       [(JStr ''a'', JRef 0, JObj [], JUndefined), (JStr ''b'', JRef 2, JObj [], JUndefined),
        (JStr ''c'', JUndefined, JObj [], JUndefined)]) =
     [Write (envelope ''net.Socket'' (JStr ''a'')) (JRef 1) 0]"
    by (simp add: eval_defs handshakes_def starts_handshake_def)
  then show ?thesis
    using at_most_one_handshake_per_run[of example_awaiting "[(JStr ''b'', JRef 2, JObj [], JUndefined)]"] q
    by simp
qed

section \<open>Sending a handle that stays open\<close>

lemma convert_send_keepOpen:
  assumes "truthy (get_prop opts ''keepOpen'')" and "convert_send s t m h opts = (r, s')"
  shows "heap s' = heap s"
  using assms unfolding convert_send_def net_Socket_send_def net_Server_send_def
    dgram_Socket_send_def track_socket_def Let_def
  by (auto simp: effect_def split: if_splits jsval.splits option.splits prod.splits outcome.splits)

lemma write_message_keepOpen:
  assumes "truthy (get_prop opts ''keepOpen'')" and "write_message s obj m h opts cb = (r, s')"
  shows "heap s' = heap s" and "pendingMessage s' = pendingMessage s"
  using assms unfolding write_message_def Let_def
  by (auto simp: postSend_def refCounted_def effect_def nextTick_def Let_def
      split: if_splits prod.splits outcome.splits)

text \<open>
  X2.  A \<^verbatim>\<open>_send\<close> whose options have a truthy \<^verbatim>\<open>keepOpen\<close> leaves every object as it
  was (the socket keeps its \<^verbatim>\<open>_handle\<close>, the connection count of its server is not
  lowered) and records no pending handle, so that the acknowledgment will close nothing.
\<close>

theorem keepOpen_keeps_the_handle:
  assumes "truthy (get_prop (legacy_options options) ''keepOpen'')"
    and "internal_send s message handle options callback = (r, s')"
  shows "heap s' = heap s \<and> pendingMessage s' = pendingMessage s"
  using assms(2)
proof (cases rule: internal_send_cases)
  case (threw e)
  then show ?thesis by simp
next
  case (push_threw q)
  then show ?thesis by simp
next
  case (convert_threw t e)
  then show ?thesis
    using convert_send_keepOpen[OF assms(1)] convert_send_quiet(6) by blast
next
  case (accepts_threw t env h')
  then show ?thesis
    using convert_send_keepOpen[OF assms(1)] convert_send_quiet(6) by blast
next
  case (wrote_handle t env h' s1)
  have 1: "heap s1 = heap s" "pendingMessage s1 = pendingMessage s"
    using wrote_handle(4) convert_send_keepOpen[OF assms(1)] convert_send_quiet(6) by blast+
  have 2: "heap s' = heap (if t = ''net.Server'' \<and> win32 s1 then effect (SetSimultaneousAccepts h' True) s1 else s1)"
    "pendingMessage s' = pendingMessage (if t = ''net.Server'' \<and> win32 s1 then effect (SetSimultaneousAccepts h' True) s1 else s1)"
    using write_message_keepOpen[OF assms(1) wrote_handle(5)] by simp_all
  show ?thesis using 1 2 by (simp add: effect_def)
next
  case wrote_plain
  then show ?thesis using write_message_keepOpen[OF assms(1)] by blast
qed

theorem keepOpen_keeps_the_handle_witness:
  "heap (snd (internal_send example_target (JStr ''a'') (JRef 2) (JObj [(''keepOpen'', JBool True)]) JUndefined))
     = heap example_target \<and>
   pendingMessage (snd (internal_send example_target (JStr ''a'') (JRef 2) (JObj [(''keepOpen'', JBool True)]) JUndefined))
     = None \<and>
   raw_handle (heap example_target 2) = Some 3 \<and>
   handle_writes (snd (internal_send example_target (JStr ''a'') (JRef 2) (JObj [(''keepOpen'', JBool True)]) JUndefined))
     = [Write (envelope ''net.Socket'' (JStr ''a'')) (JRef 3) 0]"
proof -
  have a: "truthy (get_prop (legacy_options (JObj [(''keepOpen'', JBool True)])) ''keepOpen'')"
    by (simp add: legacy_options_def)
  note t = keepOpen_keeps_the_handle[OF a prod.collapse[symmetric],
      of example_target "JStr ''a''" "JRef 2" JUndefined]
  have b: "pendingMessage example_target = None" "raw_handle (heap example_target 2) = Some 3"
    by (simp_all add: eval_defs)
  have c: "handle_writes (snd (internal_send example_target (JStr ''a'') (JRef 2) (JObj [(''keepOpen'', JBool True)]) JUndefined))
     = [Write (envelope ''net.Socket'' (JStr ''a'')) (JRef 3) 0]"
    by (simp add: eval_defs trace_defs)
  show ?thesis using t b c by simp
qed

section \<open>A message read before the channel is dropped\<close>

text \<open>
  X4.  A user message that is read before \<^verbatim>\<open>disconnect()\<close> drops the channel reference,
  on a target with no listener for \<^verbatim>\<open>"message"\<close>, is lost: its tick finds no buffer to
  append to (\<^verbatim>\<open>target.channel\<close> is null) and throws \<^verbatim>\<open>TypeError\<close>; the message is neither
  emitted nor buffered.
\<close>

theorem message_read_before_disconnect_is_lost:
  "scheduled (foldl step example_target [Read JNull (Data [JStr ''m''] False), Disconnect]) =
     [(JStr ''m'', JUndefined)] \<and>
   fst (tick (foldl step example_target [Read JNull (Data [JStr ''m''] False), Disconnect])) =
     Threw TypeError \<and>
   delivered (foldl step example_target [Read JNull (Data [JStr ''m''] False), Disconnect, Tick, Tick]) = [] \<and>
   buffered (foldl step example_target [Read JNull (Data [JStr ''m''] False), Disconnect, Tick, Tick]) = [] \<and>
   scheduled (foldl step example_target [Read JNull (Data [JStr ''m''] False), Disconnect, Tick, Tick]) = []"
  by (simp add: inbound_defs eval_receive_defs eval_handler_defs finish_def eval_defs)

end
